theory Spec2Isabelle
  imports Complex_Main
begin

section \<open>Numbers of the runtime\<close>

text \<open>
  A finite double is modelled as the real number it denotes; NaN and the infinities
  are outside the model. The result of an addition, a subtraction or a
  multiplication of doubles is the exact result rounded to a double, and a decimal
  literal that is not itself a double denotes the nearest one. The rounding, the
  functions of \<open>Math\<close> and the interpolation helpers of the rendering library are
  not part of the sources: they are the fields of an environment that every
  function of the model takes, so that a statement proved for every environment
  holds for the arithmetic of the runtime, whatever it rounds to.
\<close>

record js_env =
  rnd :: "real \<Rightarrow> real"                  \<comment> \<open>rounding of the result of \<open>+\<close>, \<open>-\<close>, \<open>*\<close> and of a literal\<close>
  fround :: "real \<Rightarrow> real"               \<comment> \<open>a store into a \<open>Float32Array\<close>\<close>
  hypot :: "real \<Rightarrow> real \<Rightarrow> real"         \<comment> \<open>\<open>Math.hypot\<close> of two arguments\<close>
  msqrt :: "real \<Rightarrow> real"                \<comment> \<open>\<open>Math.sqrt\<close>\<close>
  msin :: "real \<Rightarrow> real"                 \<comment> \<open>\<open>Math.sin\<close>\<close>
  mcos :: "real \<Rightarrow> real"                 \<comment> \<open>\<open>Math.cos\<close>\<close>
  matan2 :: "real \<Rightarrow> real \<Rightarrow> real"        \<comment> \<open>\<open>Math.atan2(y, x)\<close>\<close>
  lerp :: "real \<Rightarrow> real \<Rightarrow> real \<Rightarrow> real"   \<comment> \<open>\<open>MathUtils.lerp(x, y, t)\<close>\<close>
  vlerp :: "real \<Rightarrow> real \<Rightarrow> real \<Rightarrow> real"  \<comment> \<open>one coordinate of \<open>Vector3.lerp(v, alpha)\<close>\<close>

text \<open>The angle of the point \<open>(x, y)\<close>.\<close>

definition atan2 :: "real \<Rightarrow> real \<Rightarrow> real" where
  "atan2 y x =
     (if x > 0 then arctan (y / x)
      else if x < 0 \<and> y \<ge> 0 then arctan (y / x) + pi
      else if x < 0 then arctan (y / x) - pi
      else if y > 0 then pi / 2
      else if y < 0 then - pi / 2
      else 0)"

text \<open>Exact arithmetic: nothing is rounded, and an interpolation is
  \<open>current + (target - current) * t\<close>, as the specification writes it.\<close>

definition exact_env :: js_env where
  "exact_env =
     \<lparr>rnd = (\<lambda>x. x), fround = (\<lambda>x. x), hypot = (\<lambda>a b. sqrt (a * a + b * b)),
      msqrt = sqrt, msin = sin, mcos = cos, matan2 = atan2,
      lerp = (\<lambda>a b t. a + (b - a) * t), vlerp = (\<lambda>a b t. a + (b - a) * t)\<rparr>"

text \<open>Rounding to the nearest integer, a tie going to the even one.\<close>

definition round_even :: "real \<Rightarrow> int" where
  "round_even y =
     (let f = \<lfloor>y\<rfloor>; r = y - of_int f
      in if r < 1 / 2 then f
         else if 1 / 2 < r then f + 1
         else if even f then f else f + 1)"

text \<open>Rounding to the nearest binary floating-point number with \<open>p\<close> significant
  bits and least normal exponent \<open>emin\<close>, ties to even: the spacing around \<open>x\<close> is
  \<open>2\<close> to the power \<open>e - (p - 1)\<close>, where \<open>e\<close> is the binary exponent of \<open>x\<close>, not
  below \<open>emin\<close>. A result beyond the largest finite number (an overflow to
  infinity) is outside the model.\<close>

definition rnd_bin :: "nat \<Rightarrow> int \<Rightarrow> real \<Rightarrow> real" where
  "rnd_bin p emin x =
     (if x = 0 then 0
      else
        (let e = max \<lfloor>log 2 \<bar>x\<bar>\<rfloor> emin;
             u = 2 powr of_int (e - (int p - 1))
         in u * of_int (round_even (x / u))))"

definition rnd64 :: "real \<Rightarrow> real" where
  "rnd64 x = rnd_bin 53 (- 1022) x"

definition rnd32 :: "real \<Rightarrow> real" where
  "rnd32 x = rnd_bin 24 (- 126) x"

text \<open>The arithmetic of IEEE 754 doubles. \<open>Math.hypot\<close>, \<open>Math.sin\<close>, \<open>Math.cos\<close> and
  \<open>Math.atan2\<close> are only approximated by an implementation; here they are taken
  correctly rounded. What is evaluated below in the doubles depends on none of
  them but \<open>Math.hypot\<close>, and on that only where one argument is 0 and the result
  exact. The two interpolations are
  \<open>(1 - t) * x + t * y\<close> and \<open>x += (v.x - x) * alpha\<close>, as the rendering library
  writes them.\<close>

definition hypot64 :: "real \<Rightarrow> real \<Rightarrow> real" where
  "hypot64 a b = rnd64 (sqrt (a * a + b * b))"

definition sqrt64 :: "real \<Rightarrow> real" where
  "sqrt64 x = rnd64 (sqrt x)"

definition sin64 :: "real \<Rightarrow> real" where
  "sin64 x = rnd64 (sin x)"

definition cos64 :: "real \<Rightarrow> real" where
  "cos64 x = rnd64 (cos x)"

definition atan2_64 :: "real \<Rightarrow> real \<Rightarrow> real" where
  "atan2_64 y x = rnd64 (atan2 y x)"

definition lerp64 :: "real \<Rightarrow> real \<Rightarrow> real \<Rightarrow> real" where
  "lerp64 a b t = rnd64 (rnd64 (rnd64 (1 - t) * a) + rnd64 (t * b))"

definition vlerp64 :: "real \<Rightarrow> real \<Rightarrow> real \<Rightarrow> real" where
  "vlerp64 a b t = rnd64 (a + rnd64 (rnd64 (b - a) * t))"

definition ieee_env :: js_env where
  "ieee_env =
     \<lparr>rnd = rnd64, fround = rnd32, hypot = hypot64, msqrt = sqrt64, msin = sin64,
      mcos = cos64, matan2 = atan2_64, lerp = lerp64, vlerp = vlerp64\<rparr>"

section \<open>Data model (types.ts)\<close>

datatype AppState = TREE | SCATTER | ZOOM

datatype HandGesture = NONE | FIST | OPEN_PALM | TWO_FINGERS

text \<open>An object with the two numeric fields \<open>x\<close> and \<open>y\<close>, here \<open>vx\<close> and \<open>vy\<close>.\<close>

record vec2 =
  vx :: real
  vy :: real

record HandTrackingResult =
  gesture :: HandGesture
  position :: vec2
  isPresent :: bool

text \<open>A read of a property of \<open>undefined\<close> throws.\<close>

datatype js_error = TypeError

section \<open>Gesture classifier (handTrackingService.ts, detectGesture)\<close>

definition dist_pts :: "js_env \<Rightarrow> vec2 \<Rightarrow> vec2 \<Rightarrow> real" where
  "dist_pts E p1 p2 = hypot E (rnd E (vx p1 - vx p2)) (rnd E (vy p1 - vy p2))"

text \<open>\<open>landmarks[i]\<close> followed by a field read: out of range the element is
  \<open>undefined\<close> and the read of \<open>.x\<close> throws.\<close>

definition landmark_at :: "vec2 list \<Rightarrow> nat \<Rightarrow> js_error + vec2" where
  "landmark_at landmarks i = (if i < length landmarks then Inr (landmarks ! i) else Inl TypeError)"

definition isFingerFolded :: "js_env \<Rightarrow> vec2 list \<Rightarrow> nat \<Rightarrow> nat \<Rightarrow> js_error + bool" where
  "isFingerFolded E landmarks tipIdx pipIdx =
     (case landmark_at landmarks 0 of
        Inl e \<Rightarrow> Inl e
      | Inr wrist \<Rightarrow>
          (case landmark_at landmarks tipIdx of
             Inl e \<Rightarrow> Inl e
           | Inr tip \<Rightarrow>
               (case landmark_at landmarks pipIdx of
                  Inl e \<Rightarrow> Inl e
                | Inr pip \<Rightarrow>
                    (let dTip = dist_pts E tip wrist; dPip = dist_pts E pip wrist
                     in Inr (dTip < rnd E (dPip * rnd E (11 / 10)))))))"

definition foldedCount :: "bool \<Rightarrow> bool \<Rightarrow> bool \<Rightarrow> bool \<Rightarrow> nat" where
  "foldedCount isIndexFolded isMiddleFolded isRingFolded isPinkyFolded =
     (if isIndexFolded then 1 else 0) + (if isMiddleFolded then 1 else 0)
     + (if isRingFolded then 1 else 0) + (if isPinkyFolded then 1 else 0)"

text \<open>The argument is \<open>None\<close> for a null or undefined \<open>landmarks\<close>.\<close>

definition detectGesture :: "js_env \<Rightarrow> vec2 list option \<Rightarrow> js_error + HandGesture" where
  "detectGesture E inp =
     (case inp of
        None \<Rightarrow> Inr NONE
      | Some landmarks \<Rightarrow>
          if length landmarks = 0 then Inr NONE
          else
            (case isFingerFolded E landmarks 8 6 of Inl e \<Rightarrow> Inl e | Inr isIndexFolded \<Rightarrow>
             case isFingerFolded E landmarks 12 10 of Inl e \<Rightarrow> Inl e | Inr isMiddleFolded \<Rightarrow>
             case isFingerFolded E landmarks 16 14 of Inl e \<Rightarrow> Inl e | Inr isRingFolded \<Rightarrow>
             case isFingerFolded E landmarks 20 18 of Inl e \<Rightarrow> Inl e | Inr isPinkyFolded \<Rightarrow>
               if \<not> isIndexFolded \<and> \<not> isMiddleFolded \<and> isRingFolded \<and> isPinkyFolded
               then Inr TWO_FINGERS
               else
                 (let n = foldedCount isIndexFolded isMiddleFolded isRingFolded isPinkyFolded
                  in if n \<ge> 3 then Inr FIST
                     else if n \<le> 1 then Inr OPEN_PALM
                     else Inr OPEN_PALM)))"

text \<open>The classification rule as the specification words it: the folded test of one
  finger, \<open>distance(tip, wrist) < 1.1 * distance(pip, wrist)\<close>, in the arithmetic
  of the environment, and the label chosen from the four folded flags. In
  \<open>exact_env\<close> the test is the one between the exact distances.\<close>

definition distance_spec :: "js_env \<Rightarrow> vec2 \<Rightarrow> vec2 \<Rightarrow> real" where
  "distance_spec E a b = hypot E (rnd E (vx a - vx b)) (rnd E (vy a - vy b))"

definition folded_spec :: "js_env \<Rightarrow> vec2 list \<Rightarrow> nat \<Rightarrow> nat \<Rightarrow> bool" where
  "folded_spec E lm tip pip =
     (distance_spec E (lm ! tip) (lm ! 0)
      < rnd E (rnd E (11 / 10) * distance_spec E (lm ! pip) (lm ! 0)))"

definition classify_spec :: "bool \<Rightarrow> bool \<Rightarrow> bool \<Rightarrow> bool \<Rightarrow> HandGesture" where
  "classify_spec i m r p =
     (if \<not> i \<and> \<not> m \<and> r \<and> p then TWO_FINGERS
      else if 3 \<le> length (filter (\<lambda>b. b) [i, m, r, p]) then FIST
      else OPEN_PALM)"

text \<open>An example hand: the wrist at the origin, every middle joint at distance 1,
  the tips of index and middle at distance 2, the tips of ring and pinky on the
  wrist.\<close>

definition peace_sign :: "vec2 list" where
  "peace_sign =
     (let w = \<lparr>vx = 0, vy = 0\<rparr>; m = \<lparr>vx = 0, vy = 1\<rparr>; t = \<lparr>vx = 0, vy = 2\<rparr>
      in [w, m, m, m, m,  m, m, m, t,  m, m, m, t,  m, m, m, w,  m, m, m, w])"

text \<open>A hand at the boundary of the folded test: the wrist at the origin, every
  other joint at distance \<open>25 / 32\<close> but the four finger tips, which are at
  distance \<open>55 / 64\<close>, exactly 1.1 times as far.\<close>

definition boundary_hand :: "vec2 list" where
  "boundary_hand =
     (let w = \<lparr>vx = 0, vy = 0\<rparr>; m = \<lparr>vx = 0, vy = 25 / 32\<rparr>; t = \<lparr>vx = 0, vy = 55 / 64\<rparr>
      in [w, m, m, m, m,  m, m, m, t,  m, m, m, t,  m, m, m, t,  m, m, m, t])"

section \<open>Signal stabilizer (HandController.tsx, the onResults callback)\<close>

text \<open>The refs of the component, which the callback reads and writes.\<close>

record HandControllerRefs =
  isMountedRef :: bool
  prevPositionRef :: vec2
  gestureHistoryRef :: "HandGesture list"
  lastEmittedGestureRef :: HandGesture

definition initialRefs :: HandControllerRefs where
  "initialRefs = \<lparr>isMountedRef = True, prevPositionRef = \<lparr>vx = 0.5, vy = 0.5\<rparr>,
                  gestureHistoryRef = [], lastEmittedGestureRef = NONE\<rparr>"

text \<open>The four locals \<open>gesture\<close>, \<open>rawX\<close>, \<open>rawY\<close>, \<open>isPresent\<close> that the first
  part of the callback computes from the tracker's results.\<close>

record RawFrame =
  rawGesture :: HandGesture
  rawX :: real
  rawY :: real
  rawPresent :: bool

text \<open>Lines 31 to 45: \<open>multiHandLandmarks\<close> is \<open>None\<close> when the field is missing.
  \<open>landmarks[9] || landmarks[0]\<close> is \<open>undefined\<close> on an empty landmark list, and
  reading \<open>palm.x\<close> then throws.\<close>

definition readFrame :: "js_env \<Rightarrow> vec2 list list option \<Rightarrow> js_error + RawFrame" where
  "readFrame E multiHandLandmarks =
     (let absent = \<lparr>rawGesture = NONE, rawX = 0.5, rawY = 0.5, rawPresent = False\<rparr>
      in case multiHandLandmarks of
           None \<Rightarrow> Inr absent
         | Some hands \<Rightarrow>
             if length hands > 0 then
               (let landmarks = hands ! 0
                in case detectGesture E (Some landmarks) of
                     Inl e \<Rightarrow> Inl e
                   | Inr g \<Rightarrow>
                       (case (if 9 < length landmarks then landmark_at landmarks 9
                              else landmark_at landmarks 0) of
                          Inl e \<Rightarrow> Inl e
                        | Inr palm \<Rightarrow>
                            Inr \<lparr>rawGesture = g, rawX = rnd E (1 - vx palm), rawY = vy palm,
                                 rawPresent = True\<rparr>))
             else Inr absent)"

text \<open>The \<open>counts\<close> object: its keys in insertion order, which is the order in which
  \<open>Object.keys\<close> lists string keys. \<open>acc[g] = (acc[g] || 0) + 1\<close> adds a new key at
  the end and leaves an existing key in its place.\<close>

fun incr_count :: "HandGesture \<Rightarrow> (HandGesture \<times> nat) list \<Rightarrow> (HandGesture \<times> nat) list" where
  "incr_count g [] = [(g, 0 + 1)]"
| "incr_count g ((k, c) # acc) =
     (if k = g then (k, c + 1) # acc else (k, c) # incr_count g acc)"

definition count_gestures :: "HandGesture list \<Rightarrow> (HandGesture \<times> nat) list" where
  "count_gestures history = foldl (\<lambda>acc g. incr_count g acc) [] history"

text \<open>\<open>counts[a] > counts[b]\<close>: a missing key reads \<open>undefined\<close>, and a comparison
  with \<open>undefined\<close> is false.\<close>

definition counts_gt :: "(HandGesture \<times> nat) list \<Rightarrow> HandGesture \<Rightarrow> HandGesture \<Rightarrow> bool" where
  "counts_gt counts a b =
     (case (map_of counts a, map_of counts b) of
        (Some ca, Some cb) \<Rightarrow> ca > cb
      | _ \<Rightarrow> False)"

text \<open>\<open>Object.keys(counts).reduce((a, b) => counts[a] > counts[b] ? a : b)\<close>: a reduce
  with no initial value starts from the first key and throws on an empty array.\<close>

definition dominant_gesture :: "(HandGesture \<times> nat) list \<Rightarrow> js_error + HandGesture" where
  "dominant_gesture counts =
     (case map fst counts of
        [] \<Rightarrow> Inl TypeError
      | k # ks \<Rightarrow> Inr (foldl (\<lambda>a b. if counts_gt counts a b then a else b) k ks))"

definition counts_ge3 :: "(HandGesture \<times> nat) list \<Rightarrow> HandGesture \<Rightarrow> bool" where
  "counts_ge3 counts d = (case map_of counts d of Some c \<Rightarrow> c \<ge> 3 | None \<Rightarrow> False)"

text \<open>\<open>push\<close> followed by one \<open>shift\<close> when the length exceeds 5.\<close>

definition push_history :: "HandGesture list \<Rightarrow> HandGesture \<Rightarrow> HandGesture list" where
  "push_history history g =
     (let h = history @ [g] in if length h > 5 then tl h else h)"

text \<open>Lines 47 to 90: smoothing, debouncing and the emitted result.\<close>

definition stabilize ::
  "js_env \<Rightarrow> HandControllerRefs \<Rightarrow> RawFrame
     \<Rightarrow> js_error + (HandControllerRefs \<times> HandTrackingResult)" where
  "stabilize E refs f =
     (let smoothingFactor = rnd E (1 / 10);
          refs1 =
            (if rawPresent f then
               (let smoothX = rnd E (vx (prevPositionRef refs)
                                + rnd E (rnd E (rawX f - vx (prevPositionRef refs))
                                         * smoothingFactor));
                    smoothY = rnd E (vy (prevPositionRef refs)
                                + rnd E (rnd E (rawY f - vy (prevPositionRef refs))
                                         * smoothingFactor))
                in refs\<lparr>prevPositionRef := \<lparr>vx = smoothX, vy = smoothY\<rparr>\<rparr>)
             else refs)
      in
        (case
           (if rawPresent f then
              (let refs2 = refs1\<lparr>gestureHistoryRef :=
                                    push_history (gestureHistoryRef refs1) (rawGesture f)\<rparr>;
                   counts = count_gestures (gestureHistoryRef refs2)
               in case dominant_gesture counts of
                    Inl e \<Rightarrow> Inl e
                  | Inr dominant \<Rightarrow>
                      if counts_ge3 counts dominant
                      then Inr (refs2\<lparr>lastEmittedGestureRef := dominant\<rparr>)
                      else Inr refs2)
            else Inr (refs1\<lparr>gestureHistoryRef := [], lastEmittedGestureRef := NONE\<rparr>))
         of
           Inl e \<Rightarrow> Inl e
         | Inr refs3 \<Rightarrow>
             Inr (refs3, \<lparr>gesture = lastEmittedGestureRef refs3,
                          position = prevPositionRef refs3,
                          isPresent = rawPresent f\<rparr>)))"

text \<open>The whole callback: nothing happens, and nothing is emitted, once the component
  is unmounted.\<close>

definition onResults ::
  "js_env \<Rightarrow> HandControllerRefs \<Rightarrow> vec2 list list option
     \<Rightarrow> js_error + (HandControllerRefs \<times> HandTrackingResult option)" where
  "onResults E refs multiHandLandmarks =
     (if \<not> isMountedRef refs then Inr (refs, None)
      else case readFrame E multiHandLandmarks of
             Inl e \<Rightarrow> Inl e
           | Inr f \<Rightarrow>
               (case stabilize E refs f of
                  Inl e \<Rightarrow> Inl e
                | Inr (refs', r) \<Rightarrow> Inr (refs', Some r)))"

text \<open>A run of raw frames through the stabilizer, the state threaded along.\<close>

fun feed ::
  "js_env \<Rightarrow> HandControllerRefs \<Rightarrow> RawFrame list \<Rightarrow> js_error + HandControllerRefs" where
  "feed E refs [] = Inr refs"
| "feed E refs (f # fs) =
     (case stabilize E refs f of
        Inl e \<Rightarrow> Inl e
      | Inr (refs', r) \<Rightarrow> feed E refs' fs)"

text \<open>The last five elements of a sequence, all of it when it is shorter.\<close>

definition last5 :: "'a list \<Rightarrow> 'a list" where
  "last5 xs = drop (length xs - 5) xs"

section \<open>Mode state machine and photo list (App.tsx)\<close>

text \<open>The state of the \<open>App\<close> component: its five state variables and its three refs.
  The two effects copy \<open>appState\<close> and \<open>photos\<close> into their refs after each render.\<close>

record AppModel =
  appState :: AppState
  photos :: "string list"
  isHandPresent :: bool
  currentGesture :: HandGesture
  activePhotoIndex :: int
  appStateRef :: AppState
  photosRef :: "string list"
  handDataRef :: HandTrackingResult

definition initialApp :: AppModel where
  "initialApp = \<lparr>appState = TREE, photos = [], isHandPresent = False, currentGesture = NONE,
                  activePhotoIndex = 0, appStateRef = TREE, photosRef = [],
                  handDataRef = \<lparr>gesture = NONE, position = \<lparr>vx = 0.5, vy = 0.5\<rparr>,
                                 isPresent = False\<rparr>\<rparr>"

definition syncRefs :: "AppModel \<Rightarrow> AppModel" where
  "syncRefs a = a\<lparr>appStateRef := appState a, photosRef := photos a\<rparr>"

definition onHandUpdateProxy :: "HandTrackingResult \<Rightarrow> AppModel \<Rightarrow> AppModel" where
  "onHandUpdateProxy result a =
     (let a1 = a\<lparr>handDataRef := result\<rparr>;
          a2 = a1\<lparr>isHandPresent :=
                     (if isHandPresent a1 \<noteq> isPresent result then isPresent result
                      else isHandPresent a1)\<rparr>
      in if currentGesture a2 \<noteq> gesture result then
           (let currentAppState = appStateRef a2;
                a3 =
                  (if isPresent result then
                     (case gesture result of
                        FIST \<Rightarrow>
                          if currentAppState \<noteq> TREE then a2\<lparr>appState := TREE\<rparr> else a2
                      | OPEN_PALM \<Rightarrow>
                          if currentAppState \<noteq> SCATTER then a2\<lparr>appState := SCATTER\<rparr> else a2
                      | TWO_FINGERS \<Rightarrow>
                          if currentAppState = SCATTER \<and> length (photosRef a2) > 0
                          then a2\<lparr>appState := ZOOM\<rparr> else a2
                      | NONE \<Rightarrow> a2)
                   else a2)
            in a3\<lparr>currentGesture := gesture result\<rparr>)
         else a2)"

text \<open>One capture tick as the mode machine sees it: the callback, then the render
  whose effects bring the refs up to date.\<close>

definition appTick :: "AppModel \<Rightarrow> HandTrackingResult \<Rightarrow> AppModel" where
  "appTick a result = syncRefs (onHandUpdateProxy result a)"

definition handlePhotoUpload :: "string list \<Rightarrow> AppModel \<Rightarrow> AppModel" where
  "handlePhotoUpload newUrls a =
     (if length newUrls > 0 then a\<lparr>photos := photos a @ newUrls\<rparr> else a)"

definition clearPhotos :: "AppModel \<Rightarrow> AppModel" where
  "clearPhotos a = (a\<lparr>photos := []\<rparr>)\<lparr>activePhotoIndex := 0\<rparr>"

text \<open>The transition table as the specification words it.\<close>

definition transition_spec :: "AppState \<Rightarrow> HandGesture \<Rightarrow> bool \<Rightarrow> AppState" where
  "transition_spec s g hasPhotos =
     (if g = FIST \<and> s \<noteq> TREE then TREE
      else if g = OPEN_PALM \<and> s \<noteq> SCATTER then SCATTER
      else if g = TWO_FINGERS \<and> s = SCATTER \<and> hasPhotos then ZOOM
      else s)"

section \<open>Scene objects (types.ts, ParticleData)\<close>

type_synonym vec3 = "real \<times> real \<times> real"

datatype ParticleType = SPHERE | CUBE | CYLINDER | PHOTO

text \<open>The fields \<open>id\<close>, \<open>type\<close> and \<open>scale\<close> are \<open>pid\<close>, \<open>ptype\<close> and \<open>pscale\<close>.\<close>

record ParticleData =
  pid :: int
  initialPos :: vec3
  treePos :: vec3
  scatterPos :: vec3
  ptype :: ParticleType
  color :: string
  pscale :: real
  photoUrl :: "string option"
  rotationSpeed :: vec3

definition x3 :: "vec3 \<Rightarrow> real" where "x3 v = fst v"
definition y3 :: "vec3 \<Rightarrow> real" where "y3 v = fst (snd v)"
definition z3 :: "vec3 \<Rightarrow> real" where "z3 v = snd (snd v)"

section \<open>Pointer selector (Experience.tsx, the first useFrame of Experience)\<close>

text \<open>\<open>minDist\<close> starts at \<open>Infinity\<close>, which every distance is below.\<close>

datatype min_dist = Infinity | Finite real

fun below :: "real \<Rightarrow> min_dist \<Rightarrow> bool" where
  "below d Infinity = True"
| "below d (Finite m) = (d < m)"

text \<open>The body of the \<open>forEach\<close>, from index \<open>i\<close> on. The camera's projection
  \<open>Vector3.project\<close> belongs to the rendering library and is the parameter
  \<open>project\<close>; its result's \<open>x\<close> and \<open>y\<close> are device coordinates.\<close>

fun select_scan ::
  "js_env \<Rightarrow> (vec3 \<Rightarrow> vec3) \<Rightarrow> AppState \<Rightarrow> real \<Rightarrow> real \<Rightarrow> ParticleData list \<Rightarrow> nat
     \<Rightarrow> min_dist \<times> int \<Rightarrow> min_dist \<times> int" where
  "select_scan E project st ndcX ndcY [] i acc = acc"
| "select_scan E project st ndcX ndcY (p # ps) i (minDist, closestIndex) =
     (let v = project (if st = TREE then treePos p else scatterPos p);
          dx = rnd E (x3 v - ndcX);
          dy = rnd E (y3 v - ndcY);
          dist = msqrt E (rnd E (rnd E (dx * dx) + rnd E (dy * dy)))
      in select_scan E project st ndcX ndcY ps (Suc i)
           (if below dist minDist then (Finite dist, int i) else (minDist, closestIndex)))"

text \<open>The local \<open>dist\<close> of the loop body, for one photo object.\<close>

definition scan_dist ::
  "js_env \<Rightarrow> (vec3 \<Rightarrow> vec3) \<Rightarrow> AppState \<Rightarrow> real \<Rightarrow> real \<Rightarrow> ParticleData \<Rightarrow> real" where
  "scan_dist E project st ndcX ndcY p =
     (let v = project (if st = TREE then treePos p else scatterPos p);
          dx = rnd E (x3 v - ndcX);
          dy = rnd E (y3 v - ndcY)
      in msqrt E (rnd E (rnd E (dx * dx) + rnd E (dy * dy))))"

text \<open>The result is the argument \<open>onPhotoSelect\<close> is called with, \<open>None\<close> when it is
  not called on this frame.\<close>

definition selectionFrame ::
  "js_env \<Rightarrow> (vec3 \<Rightarrow> vec3) \<Rightarrow> AppState \<Rightarrow> HandTrackingResult \<Rightarrow> ParticleData list
     \<Rightarrow> int option" where
  "selectionFrame E project st handData photoParticles =
     (if st = ZOOM then None
      else if \<not> isPresent handData \<or> length photoParticles = 0 then None
      else
        (let ndcX = rnd E (rnd E (vx (position handData) * 2) - 1);
             ndcY = rnd E (- rnd E (vy (position handData) * 2) + 1);
             (minDist, closestIndex) =
                select_scan E project st ndcX ndcY photoParticles 0 (Infinity, - 1)
         in if (case minDist of Infinity \<Rightarrow> False | Finite m \<Rightarrow> m < rnd E (4 / 10))
               \<and> closestIndex \<noteq> - 1
            then Some closestIndex else None))"

text \<open>The distance of one photo object to the pointer as the specification words it:
  the anchor of the current mode, projected, against the pointer's device
  coordinates \<open>2 * px - 1\<close> and \<open>1 - 2 * py\<close>, in the arithmetic of the
  environment. In \<open>exact_env\<close> it is the exact Euclidean distance.\<close>

definition pointer_dist ::
  "js_env \<Rightarrow> (vec3 \<Rightarrow> vec3) \<Rightarrow> AppState \<Rightarrow> HandTrackingResult \<Rightarrow> ParticleData \<Rightarrow> real" where
  "pointer_dist E project st handData p =
     (let a = project (if st = TREE then treePos p else scatterPos p);
          ndcX = rnd E (rnd E (2 * vx (position handData)) - 1);
          ndcY = rnd E (1 - rnd E (2 * vy (position handData)));
          dx = rnd E (x3 a - ndcX);
          dy = rnd E (y3 a - ndcY)
      in msqrt E (rnd E (rnd E (dx * dx) + rnd E (dy * dy))))"

text \<open>An example camera for concrete frames: the orthographic projection that
  leaves the coordinates of a point as they are.\<close>

definition flat_project :: "vec3 \<Rightarrow> vec3" where
  "flat_project v = v"

text \<open>An example photo object with the given id and anchors.\<close>

definition photo_at :: "int \<Rightarrow> vec3 \<Rightarrow> vec3 \<Rightarrow> ParticleData" where
  "photo_at i tp sp =
     \<lparr>pid = i, initialPos = (0, 0, 0), treePos = tp, scatterPos = sp, ptype = PHOTO,
      color = ''white'', pscale = 1, photoUrl = Some ''blob:1'', rotationSpeed = (0, 0, 0)\<rparr>"


section \<open>Object animator (Experience.tsx, the useFrame of InstancedOrnaments and of PhotoDisplay)\<close>

text \<open>The interpolation helpers \<open>MathUtils.lerp\<close> and \<open>Vector3.lerp\<close> of the
  rendering library are the fields \<open>lerp\<close> and \<open>vlerp\<close> of the environment.\<close>

text \<open>\<open>Vector3.lerp\<close>: the three coordinates, each by the \<open>vlerp\<close> of the
  environment.\<close>

definition vlerp3 :: "js_env \<Rightarrow> vec3 \<Rightarrow> vec3 \<Rightarrow> real \<Rightarrow> vec3" where
  "vlerp3 E a b t = (vlerp E (x3 a) (x3 b) t, vlerp E (y3 a) (y3 b) t, vlerp E (z3 a) (z3 b) t)"

text \<open>Position, Euler rotation and uniform scale of one scene object.\<close>

record Transform =
  t_position :: vec3
  t_rotation :: vec3
  t_scale :: real

text \<open>One slot of the ornaments' buffer: the four numbers at \<open>idx\<close> to \<open>idx + 3\<close>.
  The buffer is a \<open>Float32Array\<close>: a number written to it is stored through
  \<open>fround\<close>, and a number read from it is a stored one.\<close>

type_synonym slot = "real \<times> real \<times> real \<times> real"

text \<open>The slot of a particle as the effect fills it: the initial position, and
  \<open>0.01\<close> for the scale.\<close>

definition ornamentInitSlot :: "js_env \<Rightarrow> ParticleData \<Rightarrow> slot" where
  "ornamentInitSlot E d =
     (fround E (x3 (initialPos d)), fround E (y3 (initialPos d)), fround E (z3 (initialPos d)),
      fround E (rnd E (1 / 100)))"

definition ornamentTarget :: "js_env \<Rightarrow> AppState \<Rightarrow> real \<Rightarrow> ParticleData \<Rightarrow> vec3" where
  "ornamentTarget E st time d =
     (if st = SCATTER \<or> st = ZOOM
      then (rnd E (x3 (scatterPos d)
                   + rnd E (mcos E (rnd E (rnd E (time * 0.5) + real_of_int (pid d)))
                            * rnd E (2 / 10))),
            rnd E (y3 (scatterPos d)
                   + rnd E (msin E (rnd E (time + real_of_int (pid d))) * 0.5)),
            z3 (scatterPos d))
      else (x3 (treePos d), y3 (treePos d), z3 (treePos d)))"

definition ornamentLerpSpeed :: "js_env \<Rightarrow> AppState \<Rightarrow> real \<Rightarrow> real" where
  "ornamentLerpSpeed E st delta =
     (let isTree = (st = TREE) in if isTree then rnd E (3 * delta) else rnd E (2 * delta))"

definition ornamentTargetScale :: "js_env \<Rightarrow> AppState \<Rightarrow> ParticleData \<Rightarrow> real" where
  "ornamentTargetScale E st d = rnd E (pscale d * (if st = ZOOM then 0.5 else 1.0))"

text \<open>One iteration of the loop over \<open>data\<close>: the new slot, and the \<open>dummy\<close> object
  whose matrix is written to the instance. The slot receives the new numbers
  through the store of the buffer, the dummy receives them as they were computed.
  Of the dummy's rotation only \<open>x\<close> and \<open>y\<close> are written; \<open>rotation.z\<close> never
  is.\<close>

definition ornamentStep ::
  "js_env \<Rightarrow> AppState \<Rightarrow> real \<Rightarrow> real \<Rightarrow> ParticleData \<Rightarrow> slot \<Rightarrow> Transform
     \<Rightarrow> slot \<times> Transform" where
  "ornamentStep E st time delta d s dummy =
     (let lerpSpeed = ornamentLerpSpeed E st delta;
          t = ornamentTarget E st time d;
          (cx, cy, cz, currentScale) = s;
          nx = lerp E cx (x3 t) lerpSpeed;
          ny = lerp E cy (y3 t) lerpSpeed;
          nz = lerp E cz (z3 t) lerpSpeed;
          targetScale = ornamentTargetScale E st d;
          newScale = lerp E currentScale targetScale (rnd E (delta * 3))
      in ((fround E nx, fround E ny, fround E nz, fround E newScale),
          dummy\<lparr>t_position := (nx, ny, nz),
                t_rotation := (rnd E (x3 (rotationSpeed d) * time),
                               rnd E (y3 (rotationSpeed d) * time),
                               z3 (t_rotation dummy)),
                t_scale := newScale\<rparr>))"

fun ornamentsFrame ::
  "js_env \<Rightarrow> AppState \<Rightarrow> real \<Rightarrow> real \<Rightarrow> ParticleData list \<Rightarrow> slot list \<Rightarrow> Transform
     \<Rightarrow> slot list \<times> Transform list" where
  "ornamentsFrame E st time delta (d # ds) (s # ss) dummy =
     (let (s', dummy') = ornamentStep E st time delta d s dummy;
          (ss', ms) = ornamentsFrame E st time delta ds ss dummy'
      in (s' # ss', dummy' # ms))"
| "ornamentsFrame E st time delta ds ss dummy = (ss, [])"

text \<open>The targets of one photo: position, scale and Euler rotation. The target
  position in \<open>ZOOM\<close> of a photo that is not selected is the scattered anchor
  after \<open>multiplyScalar(1.5)\<close>.\<close>

definition photoTarget ::
  "js_env \<Rightarrow> AppState \<Rightarrow> bool \<Rightarrow> real \<Rightarrow> ParticleData \<Rightarrow> vec3 \<times> real \<times> vec3" where
  "photoTarget E st isSelected time d =
     (let targetPos = treePos d;
          targetScale = rnd E (18 / 10);
          targetRot = (0, rnd E (- real_of_int (pid d) * 0.5), 0)
      in if st = SCATTER then
           (let sp = scatterPos d
            in ((x3 sp,
                 rnd E (y3 sp + rnd E (msin E (rnd E (time + real_of_int (pid d)))
                                       * rnd E (3 / 10))),
                 z3 sp),
                (if isSelected then 2.5 else 1.5),
                (if isSelected then (0, 0, 0) else (0, rnd E (time * rnd E (1 / 10)), 0))))
         else if st = ZOOM then
           (if isSelected then ((0, 0, 8), 6, (0, 0, 0))
            else ((rnd E (x3 (scatterPos d) * 1.5), rnd E (y3 (scatterPos d) * 1.5),
                   rnd E (z3 (scatterPos d) * 1.5)),
                  0.5, targetRot))
         else if st = TREE then
           (targetPos, targetScale, (0, matan2 E (x3 targetPos) (z3 targetPos), 0))
         else (targetPos, targetScale, targetRot))"

text \<open>One frame of one photo. \<open>Object3D.lookAt\<close> is the parameter \<open>lookAt\<close>: the
  rotation it gives an object at a position that faces the camera's position. The
  anchors are read from \<open>data\<close>, which the position refs mirror; the scale is
  uniform, as \<open>setScalar\<close> leaves it. The emissive intensity of the border is a
  property of the material and is left out.\<close>

definition photoFrame ::
  "js_env \<Rightarrow> (vec3 \<Rightarrow> vec3 \<Rightarrow> vec3) \<Rightarrow> AppState \<Rightarrow> bool \<Rightarrow> real \<Rightarrow> real \<Rightarrow> vec3
     \<Rightarrow> ParticleData \<Rightarrow> Transform \<Rightarrow> Transform" where
  "photoFrame E lookAt st isSelected time delta cameraPosition d mesh =
     (let (targetPos, targetScale, targetRot) = photoTarget E st isSelected time d;
          mesh1 = mesh\<lparr>t_position := vlerp3 E (t_position mesh) targetPos (rnd E (delta * 3))\<rparr>;
          mesh2 =
            (if st = ZOOM \<and> isSelected
             then mesh1\<lparr>t_rotation := lookAt (t_position mesh1) cameraPosition\<rparr>
             else mesh1\<lparr>t_rotation :=
                          (lerp E (x3 (t_rotation mesh1)) (x3 targetRot) (rnd E (delta * 3)),
                           lerp E (y3 (t_rotation mesh1)) (y3 targetRot) (rnd E (delta * 3)),
                           lerp E (z3 (t_rotation mesh1)) (z3 targetRot) (rnd E (delta * 3)))\<rparr>);
          currentScale = t_scale mesh2
      in mesh2\<lparr>t_scale := lerp E currentScale targetScale (rnd E (delta * 4))\<rparr>)"

text \<open>Euclidean distance of two points of the scene.\<close>

definition dist3 :: "vec3 \<Rightarrow> vec3 \<Rightarrow> real" where
  "dist3 a b = sqrt ((x3 a - x3 b)\<^sup>2 + (y3 a - y3 b)\<^sup>2 + (z3 a - z3 b)\<^sup>2)"


section \<open>Evaluating the rounding\<close>

lemma round_even_int: "round_even (of_int m) = m"
  by (simp add: round_even_def)

lemma round_even_between:
  assumes "of_int m - 1 / 2 < y" "y < of_int m + 1 / 2"
  shows "round_even y = m"
proof -
  have fl: "\<lfloor>y\<rfloor> = m \<or> \<lfloor>y\<rfloor> = m - 1"
    using assms by linarith
  then show ?thesis
  proof
    assume f: "\<lfloor>y\<rfloor> = m"
    then have "y - of_int \<lfloor>y\<rfloor> < 1 / 2" using assms by simp
    then show ?thesis using f by (simp add: round_even_def Let_def)
  next
    assume f: "\<lfloor>y\<rfloor> = m - 1"
    then have "1 / 2 < y - of_int \<lfloor>y\<rfloor>" using assms by simp
    then show ?thesis using f by (simp add: round_even_def Let_def)
  qed
qed

text \<open>With \<open>2 ^ 52 \<le> \<bar>x\<bar> * 2 ^ n < 2 ^ 53\<close> the spacing of the doubles around \<open>x\<close> is
  \<open>1 / 2 ^ n\<close>.\<close>

lemma floor_log2:
  assumes "2 ^ 52 \<le> \<bar>x\<bar> * 2 ^ n" "\<bar>x\<bar> * 2 ^ n < 2 ^ 53"
  shows "\<lfloor>log 2 \<bar>x\<bar>\<rfloor> = 52 - int n"
proof -
  have pos: "0 < \<bar>x\<bar>"
  proof (rule ccontr)
    assume "\<not> 0 < \<bar>x\<bar>"
    then have "\<bar>x\<bar> * 2 ^ n = 0" by simp
    with assms(1) show False by simp
  qed
  have p: "(2::real) powr of_int (52 - int n) = 2 ^ 52 / 2 ^ n"
  proof -
    have "(2::real) powr of_int (52 - int n) = 2 powr (52 - real n)" by simp
    also have "\<dots> = 2 ^ 52 / 2 ^ n" by (simp add: powr_diff powr_realpow)
    finally show ?thesis .
  qed
  have q: "(2::real) powr of_int (52 - int n + 1) = 2 ^ 53 / 2 ^ n"
  proof -
    have "(2::real) powr of_int (52 - int n + 1) = 2 powr (53 - real n)" by simp
    also have "\<dots> = 2 ^ 53 / 2 ^ n" by (simp add: powr_diff powr_realpow)
    finally show ?thesis .
  qed
  have lo: "(2::real) powr of_int (52 - int n) \<le> \<bar>x\<bar>"
    unfolding p using assms(1) by (simp add: field_simps)
  have hi: "\<bar>x\<bar> < (2::real) powr of_int (52 - int n + 1)"
    unfolding q using assms(2) by (simp add: field_simps)
  have "of_int (52 - int n) \<le> log 2 \<bar>x\<bar>"
    using lo pos by (simp add: le_log_iff)
  moreover have "log 2 \<bar>x\<bar> < of_int (52 - int n + 1)"
    using hi pos by (simp add: log_less_iff)
  ultimately show ?thesis by (intro floor_unique) simp_all
qed

lemma rnd64_scaled:
  assumes "2 ^ 52 \<le> \<bar>x\<bar> * 2 ^ n" "\<bar>x\<bar> * 2 ^ n < 2 ^ 53" "n \<le> 1074"
  shows "rnd64 x = of_int (round_even (x * 2 ^ n)) / 2 ^ n"
proof -
  have nz: "x \<noteq> 0" using assms(1) by auto
  have e: "max \<lfloor>log 2 \<bar>x\<bar>\<rfloor> (- 1022) = 52 - int n"
    using floor_log2 [OF assms(1,2)] assms(3) by simp
  have u: "(2::real) powr of_int (52 - int n - (int 53 - 1)) = 1 / 2 ^ n"
  proof -
    have "(2::real) powr of_int (52 - int n - (int 53 - 1)) = 2 powr (- real n)" by simp
    also have "\<dots> = 1 / 2 ^ n" by (simp add: powr_minus powr_realpow divide_inverse)
    finally show ?thesis .
  qed
  show ?thesis
    unfolding rnd64_def rnd_bin_def Let_def e u using nz by simp
qed

text \<open>A number that has an integer significand below \<open>2 ^ 53\<close> at its own spacing is
  a double, and rounding leaves it.\<close>

lemma rnd64_exact:
  assumes "2 ^ 52 \<le> \<bar>x\<bar> * 2 ^ n" "\<bar>x\<bar> * 2 ^ n < 2 ^ 53" "n \<le> 1074"
    and "x * 2 ^ n = of_int m"
  shows "rnd64 x = x"
proof -
  have "rnd64 x = of_int m / 2 ^ n"
    unfolding rnd64_scaled [OF assms(1,2,3)] assms(4) round_even_int ..
  also have "\<dots> = x" using assms(4) by (simp add: field_simps)
  finally show ?thesis .
qed

lemma rnd64_round:
  assumes "2 ^ 52 \<le> \<bar>x\<bar> * 2 ^ n" "\<bar>x\<bar> * 2 ^ n < 2 ^ 53" "n \<le> 1074"
    and "of_int m - 1 / 2 < x * 2 ^ n" "x * 2 ^ n < of_int m + 1 / 2"
  shows "rnd64 x = of_int m / 2 ^ n"
  unfolding rnd64_scaled [OF assms(1,2,3)] round_even_between [OF assms(4,5)] ..



lemma rnd64_0: "rnd64 0 = 0"
  by (simp add: rnd64_def rnd_bin_def)

lemma rnd64_1: "rnd64 1 = 1"
  by (rule rnd64_exact [where n = 52 and m = "2 ^ 52"]) simp_all

lemma rnd64_2: "rnd64 2 = 2"
  by (rule rnd64_exact [where n = 51 and m = "2 ^ 52"]) simp_all

lemma rnd64_half: "rnd64 (1 / 2) = 1 / 2"
  by (rule rnd64_exact [where n = 53 and m = "2 ^ 52"]) simp_all


lemma rnd64_four_tenths: "rnd64 (4 / 10) = 3602879701896397 / 2 ^ 53"
proof -
  have "rnd64 (4 / 10) = of_int 7205759403792794 / 2 ^ 54"
    by (rule rnd64_round) simp_all
  then show ?thesis by simp
qed

lemma rnd64_eleven_tenths: "rnd64 (11 / 10) = 2476979795053773 / 2 ^ 51"
proof -
  have "rnd64 (11 / 10) = of_int 4953959590107546 / 2 ^ 52"
    by (rule rnd64_round) simp_all
  then show ?thesis by simp
qed

text \<open>A correctly rounded square root, from bounds on the squares.\<close>

lemma sqrt64_round:
  assumes "0 \<le> x" "0 < m"
    and "(2 ^ 52)\<^sup>2 \<le> x * (2 ^ n)\<^sup>2" "x * (2 ^ n)\<^sup>2 < (2 ^ 53)\<^sup>2" "n \<le> 1074"
    and "(of_int m - 1 / 2)\<^sup>2 < x * (2 ^ n)\<^sup>2" "x * (2 ^ n)\<^sup>2 < (of_int m + 1 / 2)\<^sup>2"
  shows "sqrt64 x = of_int m / 2 ^ n"
proof -
  have s: "sqrt x * 2 ^ n = sqrt (x * (2 ^ n)\<^sup>2)"
    by (simp add: real_sqrt_mult)
  have a: "2 ^ 52 \<le> \<bar>sqrt x\<bar> * 2 ^ n"
  proof -
    have "sqrt ((2 ^ 52)\<^sup>2) \<le> sqrt (x * (2 ^ n)\<^sup>2)"
      using assms(3) by (simp only: real_sqrt_le_iff)
    then show ?thesis using assms(1) s by simp
  qed
  have b: "\<bar>sqrt x\<bar> * 2 ^ n < 2 ^ 53"
  proof -
    have "sqrt (x * (2 ^ n)\<^sup>2) < sqrt ((2 ^ 53)\<^sup>2)"
      using assms(4) by (simp only: real_sqrt_less_iff)
    then show ?thesis using assms(1) s by simp
  qed
  have mpos: "(0::real) \<le> of_int m - 1 / 2" using assms(2) by linarith
  have c: "of_int m - 1 / 2 < sqrt x * 2 ^ n"
  proof -
    have "sqrt ((of_int m - 1 / 2)\<^sup>2) < sqrt (x * (2 ^ n)\<^sup>2)"
      using assms(6) by (simp only: real_sqrt_less_iff)
    then show ?thesis using mpos s by simp
  qed
  have d: "sqrt x * 2 ^ n < of_int m + 1 / 2"
  proof -
    have "sqrt (x * (2 ^ n)\<^sup>2) < sqrt ((of_int m + 1 / 2)\<^sup>2)"
      using assms(7) by (simp only: real_sqrt_less_iff)
    moreover have "(0::real) \<le> of_int m + 1 / 2" using assms(2) by linarith
    ultimately show ?thesis using s by simp
  qed
  show ?thesis
    unfolding sqrt64_def by (rule rnd64_round [OF a b assms(5) c d])
qed

section \<open>The classifier against its rule\<close>

lemma isFingerFolded_21:
  assumes "length lm = 21" "tip < 21" "pip < 21"
  shows "isFingerFolded E lm tip pip = Inr (folded_spec E lm tip pip)"
  using assms
  by (simp add: isFingerFolded_def landmark_at_def folded_spec_def dist_pts_def
      distance_spec_def mult.commute)

lemma classify_spec_code:
  "(if \<not> i \<and> \<not> m \<and> r \<and> p then Inr TWO_FINGERS
    else (let n = foldedCount i m r p
          in if n \<ge> 3 then Inr FIST else if n \<le> 1 then Inr OPEN_PALM else Inr OPEN_PALM))
   = (Inr (classify_spec i m r p) :: js_error + HandGesture)"
  by (cases i; cases m; cases r; cases p) (simp_all add: classify_spec_def foldedCount_def)

lemma detectGesture_21:
  assumes "length lm = 21"
  shows "detectGesture E (Some lm)
         = Inr (classify_spec (folded_spec E lm 8 6) (folded_spec E lm 12 10)
                              (folded_spec E lm 16 14) (folded_spec E lm 20 18))"
proof -
  have ne: "length lm \<noteq> 0" using assms by simp
  have "detectGesture E (Some lm)
        = (if \<not> folded_spec E lm 8 6 \<and> \<not> folded_spec E lm 12 10
               \<and> folded_spec E lm 16 14 \<and> folded_spec E lm 20 18
           then Inr TWO_FINGERS
           else (let n = foldedCount (folded_spec E lm 8 6) (folded_spec E lm 12 10)
                           (folded_spec E lm 16 14) (folded_spec E lm 20 18)
                 in if n \<ge> 3 then Inr FIST
                    else if n \<le> 1 then Inr OPEN_PALM else Inr OPEN_PALM))"
    unfolding detectGesture_def using ne
    by (simp add: isFingerFolded_21 [OF assms])
  then show ?thesis by (simp only: classify_spec_code)
qed

lemma folded_spec_update:
  assumes "i \<noteq> 0" "i \<noteq> tip" "i \<noteq> pip"
  shows "folded_spec E (lm[i := q]) tip pip = folded_spec E lm tip pip"
  using assms by (simp add: folded_spec_def distance_spec_def)

lemma detectGesture_NONE_iff:
  "detectGesture E inp = Inr NONE \<longleftrightarrow> inp = None \<or> inp = Some []"
proof (cases inp)
  case None
  then show ?thesis by (simp add: detectGesture_def)
next
  case (Some lm)
  show ?thesis
  proof (cases "lm = []")
    case True
    with Some show ?thesis by (simp add: detectGesture_def)
  next
    case False
    have "detectGesture E (Some lm) \<noteq> Inr NONE"
      using False
      by (auto simp: detectGesture_def Let_def split: sum.splits)
    with Some False show ?thesis by simp
  qed
qed

section \<open>Counting and the dominant gesture\<close>

lemma map_of_incr_count:
  "map_of (incr_count g acc) k
   = (if k = g then Some ((case map_of acc g of None \<Rightarrow> 0 | Some c \<Rightarrow> c) + 1)
      else map_of acc k)"
  by (induction acc) auto

lemma keys_incr_count:
  "map fst (incr_count g acc)
   = (if g \<in> set (map fst acc) then map fst acc else map fst acc @ [g])"
  by (induction acc) force+

lemma map_of_foldl_incr:
  "map_of (foldl (\<lambda>acc g. incr_count g acc) acc h) k
   = (if k \<in> set h
      then Some ((case map_of acc k of None \<Rightarrow> 0 | Some c \<Rightarrow> c) + count_list h k)
      else map_of acc k)"
proof (induction h arbitrary: acc)
  case Nil
  show ?case by simp
next
  case (Cons g h)
  show ?case
    by (simp add: Cons.IH map_of_incr_count)
qed

lemma map_of_count_gestures:
  "map_of (count_gestures h) k = (if k \<in> set h then Some (count_list h k) else None)"
  by (simp add: count_gestures_def map_of_foldl_incr)

text \<open>The keys of \<open>counts\<close> are the labels of the history in the order of their first
  occurrence.\<close>

lemma keys_count_gestures: "map fst (count_gestures h) = rev (remdups (rev h))"
proof (induction h rule: rev_induct)
  case Nil
  show ?case by (simp add: count_gestures_def)
next
  case (snoc g h)
  have "map fst (count_gestures (h @ [g])) = map fst (incr_count g (count_gestures h))"
    by (simp add: count_gestures_def)
  also have "\<dots> = (if g \<in> set h then rev (remdups (rev h)) else rev (remdups (rev h)) @ [g])"
    by (simp add: keys_incr_count snoc.IH)
  also have "\<dots> = rev (remdups (rev (h @ [g])))"
    by simp
  finally show ?case .
qed

lemma set_keys_count_gestures: "set (map fst (count_gestures h)) = set h"
  by (simp add: keys_count_gestures)

lemma counts_gt_count_gestures:
  assumes "a \<in> set h" "b \<in> set h"
  shows "counts_gt (count_gestures h) a b \<longleftrightarrow> count_list h a > count_list h b"
  using assms by (simp add: counts_gt_def map_of_count_gestures)

text \<open>The reduce ends on the last key, in iteration order, among those of maximal
  count.\<close>

lemma reduce_last_max:
  assumes "set (k # ks) \<subseteq> set h"
  shows "\<exists>pre post. k # ks = pre @ foldl (\<lambda>a b. if counts_gt (count_gestures h) a b then a else b) k ks # post
           \<and> (\<forall>x\<in>set pre. count_list h x \<le> count_list h (foldl (\<lambda>a b. if counts_gt (count_gestures h) a b then a else b) k ks))
           \<and> (\<forall>x\<in>set post. count_list h x < count_list h (foldl (\<lambda>a b. if counts_gt (count_gestures h) a b then a else b) k ks))"
  using assms
proof (induction ks rule: rev_induct)
  case Nil
  show ?case by (rule exI [of _ "[]"], rule exI [of _ "[]"]) simp
next
  case (snoc b ks)
  let ?pick = "\<lambda>a b. if counts_gt (count_gestures h) a b then a else b"
  let ?r = "foldl ?pick k ks"
  from snoc.prems have sub: "set (k # ks) \<subseteq> set h" and b: "b \<in> set h" by auto
  from snoc.IH [OF sub] obtain pre post where
    dec: "k # ks = pre @ ?r # post"
    and pre: "\<forall>x\<in>set pre. count_list h x \<le> count_list h ?r"
    and post: "\<forall>x\<in>set post. count_list h x < count_list h ?r"
    by blast
  have "?r \<in> set (k # ks)" by (subst dec) simp
  with sub have r: "?r \<in> set h" by blast
  have step: "foldl ?pick k (ks @ [b]) = (if count_list h ?r > count_list h b then ?r else b)"
    by (simp add: counts_gt_count_gestures [OF r b])
  let ?F = "foldl ?pick k (ks @ [b])"
  show ?case
  proof (cases "count_list h ?r > count_list h b")
    case True
    then have eq: "?F = ?r" using step by simp
    have "k # ks @ [b] = pre @ ?F # (post @ [b])
          \<and> (\<forall>x\<in>set pre. count_list h x \<le> count_list h ?F)
          \<and> (\<forall>x\<in>set (post @ [b]). count_list h x < count_list h ?F)"
      unfolding eq using dec pre post True by simp
    then show ?thesis by blast
  next
    case False
    then have eq: "?F = b" using step by simp
    have all: "\<forall>x\<in>set (k # ks). count_list h x \<le> count_list h b"
    proof
      fix x assume "x \<in> set (k # ks)"
      then have "x \<in> set pre \<or> x = ?r \<or> x \<in> set post" by (subst (asm) dec) auto
      then have "count_list h x \<le> count_list h ?r" using pre post by (auto simp: less_imp_le)
      with False show "count_list h x \<le> count_list h b" by simp
    qed
    have "k # ks @ [b] = (k # ks) @ ?F # []
          \<and> (\<forall>x\<in>set (k # ks). count_list h x \<le> count_list h ?F)
          \<and> (\<forall>x\<in>set []. count_list h x < count_list h ?F)"
      unfolding eq using all by simp
    then show ?thesis by blast
  qed
qed

lemma dominant_gesture_history:
  assumes "h \<noteq> []"
  shows "\<exists>d pre post. dominant_gesture (count_gestures h) = Inr d
           \<and> map fst (count_gestures h) = pre @ d # post
           \<and> d \<in> set h
           \<and> (\<forall>x\<in>set pre. count_list h x \<le> count_list h d)
           \<and> (\<forall>x\<in>set post. count_list h x < count_list h d)"
proof -
  from assms have "map fst (count_gestures h) \<noteq> []"
    using set_keys_count_gestures [of h] by (metis set_empty)
  then obtain k ks where ks: "map fst (count_gestures h) = k # ks"
    by (cases "map fst (count_gestures h)") auto
  have sub: "set (k # ks) \<subseteq> set h"
    using set_keys_count_gestures [of h] ks by simp
  let ?d = "foldl (\<lambda>a b. if counts_gt (count_gestures h) a b then a else b) k ks"
  from reduce_last_max [OF sub] obtain pre post where
    dec: "k # ks = pre @ ?d # post"
    and pre: "\<forall>x\<in>set pre. count_list h x \<le> count_list h ?d"
    and post: "\<forall>x\<in>set post. count_list h x < count_list h ?d"
    by blast
  have dom: "dominant_gesture (count_gestures h) = Inr ?d"
    by (simp add: dominant_gesture_def ks)
  have "?d \<in> set (k # ks)" by (subst dec) simp
  with sub have "?d \<in> set h" by blast
  with dom dec pre post ks show ?thesis by auto
qed

lemma dominant_gesture_max:
  assumes "h \<noteq> []"
  shows "\<exists>d. dominant_gesture (count_gestures h) = Inr d \<and> d \<in> set h
           \<and> (\<forall>x. count_list h x \<le> count_list h d)"
proof -
  from dominant_gesture_history [OF assms] obtain d pre post where
    dom: "dominant_gesture (count_gestures h) = Inr d"
    and dec: "map fst (count_gestures h) = pre @ d # post"
    and d: "d \<in> set h"
    and pre: "\<forall>x\<in>set pre. count_list h x \<le> count_list h d"
    and post: "\<forall>x\<in>set post. count_list h x < count_list h d"
    by blast
  have "count_list h x \<le> count_list h d" for x
  proof (cases "x \<in> set h")
    case True
    then have "x \<in> set (pre @ d # post)"
      using set_keys_count_gestures [of h] dec by simp
    then show ?thesis using pre post by (auto simp: less_imp_le)
  next
    case False
    then show ?thesis by (simp add: count_list_0_iff)
  qed
  with dom d show ?thesis by blast
qed

lemma count_list_two_le_length:
  "a \<noteq> b \<Longrightarrow> count_list h a + count_list h b \<le> length h"
  by (induction h) auto

lemma majority_unique:
  assumes "length h \<le> 5" "3 \<le> count_list h a" "3 \<le> count_list h b"
  shows "a = b"
proof (rule ccontr)
  assume "a \<noteq> b"
  from count_list_two_le_length [OF this, of h] assms show False by simp
qed

lemma length_push_history: "length h \<le> 5 \<Longrightarrow> length (push_history h g) \<le> 5"
  by (simp add: push_history_def Let_def)

lemma push_history_not_Nil: "push_history h g \<noteq> []"
  by (cases h) (auto simp: push_history_def Let_def)

lemma push_history_last5:
  "length h \<le> 5 \<Longrightarrow> push_history h g = drop (length (h @ [g]) - 5) (h @ [g])"
proof (cases "length h = 5")
  case True
  then have "length (h @ [g]) - 5 = Suc 0" by simp
  then have "drop (length (h @ [g]) - 5) (h @ [g]) = tl (h @ [g])"
    by (simp only: drop_Suc drop_0)
  with True show ?thesis by (simp add: push_history_def Let_def)
next
  case False
  assume "length h \<le> 5"
  with False show ?thesis by (simp add: push_history_def Let_def)
qed

section \<open>One frame of the stabilizer\<close>

lemma stabilize_present:
  assumes "rawPresent f"
  shows "\<exists>d. dominant_gesture (count_gestures (push_history (gestureHistoryRef refs) (rawGesture f))) = Inr d
           \<and> d \<in> set (push_history (gestureHistoryRef refs) (rawGesture f))
           \<and> (\<forall>x. count_list (push_history (gestureHistoryRef refs) (rawGesture f)) x
                    \<le> count_list (push_history (gestureHistoryRef refs) (rawGesture f)) d)
           \<and> stabilize E refs f =
               Inr (refs\<lparr>prevPositionRef :=
                           \<lparr>vx = rnd E (vx (prevPositionRef refs) + rnd E (rnd E (rawX f - vx (prevPositionRef refs)) * rnd E (1 / 10))),
                            vy = rnd E (vy (prevPositionRef refs) + rnd E (rnd E (rawY f - vy (prevPositionRef refs)) * rnd E (1 / 10)))\<rparr>,
                         gestureHistoryRef := push_history (gestureHistoryRef refs) (rawGesture f),
                         lastEmittedGestureRef :=
                           (if 3 \<le> count_list (push_history (gestureHistoryRef refs) (rawGesture f)) d
                            then d else lastEmittedGestureRef refs)\<rparr>,
                    \<lparr>gesture = (if 3 \<le> count_list (push_history (gestureHistoryRef refs) (rawGesture f)) d
                                then d else lastEmittedGestureRef refs),
                     position =
                           \<lparr>vx = rnd E (vx (prevPositionRef refs) + rnd E (rnd E (rawX f - vx (prevPositionRef refs)) * rnd E (1 / 10))),
                            vy = rnd E (vy (prevPositionRef refs) + rnd E (rnd E (rawY f - vy (prevPositionRef refs)) * rnd E (1 / 10)))\<rparr>,
                     isPresent = True\<rparr>)"
proof -
  let ?H = "push_history (gestureHistoryRef refs) (rawGesture f)"
  from dominant_gesture_max [OF push_history_not_Nil, of "gestureHistoryRef refs" "rawGesture f"]
  obtain d where dom: "dominant_gesture (count_gestures ?H) = Inr d"
    and d: "d \<in> set ?H" and mx: "\<forall>x. count_list ?H x \<le> count_list ?H d"
    by blast
  have ge3: "counts_ge3 (count_gestures ?H) d \<longleftrightarrow> 3 \<le> count_list ?H d"
    using d by (simp add: counts_ge3_def map_of_count_gestures)
  have "stabilize E refs f =
               Inr (refs\<lparr>prevPositionRef :=
                           \<lparr>vx = rnd E (vx (prevPositionRef refs) + rnd E (rnd E (rawX f - vx (prevPositionRef refs)) * rnd E (1 / 10))),
                            vy = rnd E (vy (prevPositionRef refs) + rnd E (rnd E (rawY f - vy (prevPositionRef refs)) * rnd E (1 / 10)))\<rparr>,
                         gestureHistoryRef := ?H,
                         lastEmittedGestureRef :=
                           (if 3 \<le> count_list ?H d then d else lastEmittedGestureRef refs)\<rparr>,
                    \<lparr>gesture = (if 3 \<le> count_list ?H d then d else lastEmittedGestureRef refs),
                     position =
                           \<lparr>vx = rnd E (vx (prevPositionRef refs) + rnd E (rnd E (rawX f - vx (prevPositionRef refs)) * rnd E (1 / 10))),
                            vy = rnd E (vy (prevPositionRef refs) + rnd E (rnd E (rawY f - vy (prevPositionRef refs)) * rnd E (1 / 10)))\<rparr>,
                     isPresent = True\<rparr>)"
    using assms by (simp add: stabilize_def Let_def dom ge3)
  with dom d mx show ?thesis by blast
qed

lemma stabilize_absent:
  assumes "\<not> rawPresent f"
  shows "stabilize E refs f =
           Inr (refs\<lparr>gestureHistoryRef := [], lastEmittedGestureRef := NONE\<rparr>,
                \<lparr>gesture = NONE, position = prevPositionRef refs, isPresent = False\<rparr>)"
  using assms by (simp add: stabilize_def)

lemma stabilize_total: "\<exists>refs' r. stabilize E refs f = Inr (refs', r)"
proof (cases "rawPresent f")
  case True
  from stabilize_present [OF True, where E = E and refs = refs] show ?thesis by blast
next
  case False
  from stabilize_absent [OF False, where E = E and refs = refs] show ?thesis by blast
qed

lemma stabilize_result:
  assumes "stabilize E refs f = Inr (refs', r)"
  shows "gesture r = lastEmittedGestureRef refs' \<and> position r = prevPositionRef refs'
         \<and> isPresent r = rawPresent f \<and> isMountedRef refs' = isMountedRef refs"
proof (cases "rawPresent f")
  case True
  from stabilize_present [OF True, where E = E and refs = refs] obtain d where
    "stabilize E refs f =
               Inr (refs\<lparr>prevPositionRef :=
                           \<lparr>vx = rnd E (vx (prevPositionRef refs) + rnd E (rnd E (rawX f - vx (prevPositionRef refs)) * rnd E (1 / 10))),
                            vy = rnd E (vy (prevPositionRef refs) + rnd E (rnd E (rawY f - vy (prevPositionRef refs)) * rnd E (1 / 10)))\<rparr>,
                         gestureHistoryRef := push_history (gestureHistoryRef refs) (rawGesture f),
                         lastEmittedGestureRef :=
                           (if 3 \<le> count_list (push_history (gestureHistoryRef refs) (rawGesture f)) d
                            then d else lastEmittedGestureRef refs)\<rparr>,
                    \<lparr>gesture = (if 3 \<le> count_list (push_history (gestureHistoryRef refs) (rawGesture f)) d
                                then d else lastEmittedGestureRef refs),
                     position =
                           \<lparr>vx = rnd E (vx (prevPositionRef refs) + rnd E (rnd E (rawX f - vx (prevPositionRef refs)) * rnd E (1 / 10))),
                            vy = rnd E (vy (prevPositionRef refs) + rnd E (rnd E (rawY f - vy (prevPositionRef refs)) * rnd E (1 / 10)))\<rparr>,
                     isPresent = True\<rparr>)"
    by blast
  with assms have
    "refs' = refs\<lparr>prevPositionRef :=
                           \<lparr>vx = rnd E (vx (prevPositionRef refs) + rnd E (rnd E (rawX f - vx (prevPositionRef refs)) * rnd E (1 / 10))),
                            vy = rnd E (vy (prevPositionRef refs) + rnd E (rnd E (rawY f - vy (prevPositionRef refs)) * rnd E (1 / 10)))\<rparr>,
                         gestureHistoryRef := push_history (gestureHistoryRef refs) (rawGesture f),
                         lastEmittedGestureRef :=
                           (if 3 \<le> count_list (push_history (gestureHistoryRef refs) (rawGesture f)) d
                            then d else lastEmittedGestureRef refs)\<rparr>"
    and "r = \<lparr>gesture = (if 3 \<le> count_list (push_history (gestureHistoryRef refs) (rawGesture f)) d
                                then d else lastEmittedGestureRef refs),
                     position =
                           \<lparr>vx = rnd E (vx (prevPositionRef refs) + rnd E (rnd E (rawX f - vx (prevPositionRef refs)) * rnd E (1 / 10))),
                            vy = rnd E (vy (prevPositionRef refs) + rnd E (rnd E (rawY f - vy (prevPositionRef refs)) * rnd E (1 / 10)))\<rparr>,
                     isPresent = True\<rparr>"
    by simp_all
  with True show ?thesis by simp
next
  case False
  from stabilize_absent [OF False, where E = E and refs = refs] assms False show ?thesis by auto
qed

lemma stabilize_invariant:
  assumes "stabilize E refs f = Inr (refs', r)" "\<not> isPresent r"
  shows "gesture r = NONE"
proof -
  from stabilize_result [OF assms(1)] assms(2) have "\<not> rawPresent f" by simp
  from stabilize_absent [OF this, where E = E and refs = refs] assms(1) show ?thesis by auto
qed

lemma stabilize_present_step:
  assumes "rawPresent f" "length (gestureHistoryRef refs) \<le> 5"
  shows "\<exists>refs' r. stabilize E refs f = Inr (refs', r)
           \<and> gestureHistoryRef refs' = last5 (gestureHistoryRef refs @ [rawGesture f])
           \<and> length (gestureHistoryRef refs') \<le> 5
           \<and> gesture r = lastEmittedGestureRef refs'
           \<and> isPresent r
           \<and> (\<forall>l. 3 \<le> count_list (gestureHistoryRef refs') l \<longrightarrow>
                  lastEmittedGestureRef refs' = l
                  \<and> (\<forall>x. count_list (gestureHistoryRef refs') x \<le> count_list (gestureHistoryRef refs') l))
           \<and> ((\<forall>l. count_list (gestureHistoryRef refs') l < 3) \<longrightarrow>
                  lastEmittedGestureRef refs' = lastEmittedGestureRef refs)
           \<and> vx (prevPositionRef refs') = rnd E (vx (prevPositionRef refs) + rnd E (rnd E (rawX f - vx (prevPositionRef refs)) * rnd E (1 / 10)))
           \<and> vy (prevPositionRef refs') = rnd E (vy (prevPositionRef refs) + rnd E (rnd E (rawY f - vy (prevPositionRef refs)) * rnd E (1 / 10)))
           \<and> position r = prevPositionRef refs'"
proof -
  let ?H = "push_history (gestureHistoryRef refs) (rawGesture f)"
  from stabilize_present [OF assms(1), where E = E and refs = refs] obtain d refs' r where
    mx: "\<forall>x. count_list ?H x \<le> count_list ?H d"
    and st: "stabilize E refs f = Inr (refs', r)"
    and h: "gestureHistoryRef refs' = ?H"
    and e: "lastEmittedGestureRef refs' = (if 3 \<le> count_list ?H d then d else lastEmittedGestureRef refs)"
    and g: "gesture r = lastEmittedGestureRef refs'"
    and p: "isPresent r"
    and px: "vx (prevPositionRef refs') = rnd E (vx (prevPositionRef refs) + rnd E (rnd E (rawX f - vx (prevPositionRef refs)) * rnd E (1 / 10)))"
    and py: "vy (prevPositionRef refs') = rnd E (vy (prevPositionRef refs) + rnd E (rnd E (rawY f - vy (prevPositionRef refs)) * rnd E (1 / 10)))"
    and pr: "position r = prevPositionRef refs'"
    by auto
  have len: "length ?H \<le> 5" by (rule length_push_history [OF assms(2)])
  have l5: "?H = last5 (gestureHistoryRef refs @ [rawGesture f])"
    unfolding last5_def by (rule push_history_last5 [OF assms(2)])
  have maj: "lastEmittedGestureRef refs' = l \<and> (\<forall>x. count_list ?H x \<le> count_list ?H l)"
    if "3 \<le> count_list ?H l" for l
  proof -
    from that mx have "3 \<le> count_list ?H d" by (meson le_trans)
    from majority_unique [OF len that this] have "l = d" .
    with e that mx show ?thesis by simp
  qed
  have nomaj: "lastEmittedGestureRef refs' = lastEmittedGestureRef refs"
    if "\<forall>l. count_list ?H l < 3"
  proof -
    from that have "\<not> 3 \<le> count_list ?H d" by (simp add: not_le)
    with e show ?thesis by simp
  qed
  show ?thesis
    using st h len l5 g p maj nomaj px py pr by (metis (no_types, lifting))
qed

section \<open>Runs of frames\<close>

lemma feed_snoc:
  "feed E refs (fs @ [f]) =
     (case feed E refs fs of
        Inl e \<Rightarrow> Inl e
      | Inr refs1 \<Rightarrow> (case stabilize E refs1 f of Inl e \<Rightarrow> Inl e | Inr (refs', r) \<Rightarrow> Inr refs'))"
proof (induction fs arbitrary: refs)
  case Nil
  show ?case by (simp split: sum.splits prod.splits)
next
  case (Cons a fs)
  show ?case by (simp add: Cons.IH split: sum.splits prod.splits)
qed

lemma last5_length: "length (last5 xs) \<le> 5"
  by (simp add: last5_def)

lemma last5_short: "length xs \<le> 5 \<Longrightarrow> last5 xs = xs"
  by (simp add: last5_def)

lemma last5_append: "last5 (last5 xs @ ys) = last5 (xs @ ys)"
proof (cases "length xs \<le> 5")
  case True
  then show ?thesis by (simp add: last5_short)
next
  case False
  then have "last5 xs @ ys = drop (length xs - 5) (xs @ ys)"
    by (simp add: last5_def)
  moreover have "length (drop (length xs - 5) (xs @ ys)) - 5 + (length xs - 5) = length (xs @ ys) - 5"
    using False by simp
  ultimately show ?thesis
    by (simp add: last5_def del: length_append length_drop drop_append)
qed

lemma feed_present_history:
  assumes "\<forall>f\<in>set fs. rawPresent f" "length (gestureHistoryRef refs) \<le> 5"
  shows "\<exists>refs'. feed E refs fs = Inr refs'
           \<and> gestureHistoryRef refs' = last5 (gestureHistoryRef refs @ map rawGesture fs)"
  using assms
proof (induction fs arbitrary: refs)
  case Nil
  then show ?case by (simp add: last5_short)
next
  case (Cons f fs)
  from Cons.prems have pf: "rawPresent f" and rest: "\<forall>f\<in>set fs. rawPresent f" by auto
  from stabilize_present_step [OF pf Cons.prems(2), where E = E] obtain refs1 r where
    st: "stabilize E refs f = Inr (refs1, r)"
    and h1: "gestureHistoryRef refs1 = last5 (gestureHistoryRef refs @ [rawGesture f])"
    and len1: "length (gestureHistoryRef refs1) \<le> 5"
    by blast
  from Cons.IH [OF rest len1] obtain refs' where
    fd: "feed E refs1 fs = Inr refs'"
    and h': "gestureHistoryRef refs' = last5 (gestureHistoryRef refs1 @ map rawGesture fs)"
    by blast
  have "gestureHistoryRef refs' = last5 (gestureHistoryRef refs @ map rawGesture (f # fs))"
    using h' h1 last5_append [of "gestureHistoryRef refs @ [rawGesture f]" "map rawGesture fs"]
    by simp
  with st fd show ?case by simp
qed

lemma map_rawGesture_const:
  "\<forall>f\<in>set fs. rawGesture f = g \<Longrightarrow> map rawGesture fs = replicate (length fs) g"
  by (induction fs) auto

lemma feed_five_identical:
  assumes len: "length (gestureHistoryRef refs) \<le> 5"
    and five: "length fs = 5"
    and same: "\<forall>f\<in>set fs. rawPresent f \<and> rawGesture f = g"
  shows "\<exists>refs'. feed E refs fs = Inr refs' \<and> gestureHistoryRef refs' = replicate 5 g
           \<and> lastEmittedGestureRef refs' = g"
proof -
  from five obtain fs' f where fs: "fs = fs' @ [f]"
    by (cases fs rule: rev_cases) auto
  from same fs have pres': "\<forall>f\<in>set fs'. rawPresent f" and pf: "rawPresent f" by auto
  from same have pres: "\<forall>f\<in>set fs. rawPresent f" by auto
  from same have gs: "map rawGesture fs = replicate 5 g"
    using map_rawGesture_const [of fs g] five by simp
  from feed_present_history [OF pres' len, where E = E] obtain refs1 where
    f1: "feed E refs fs' = Inr refs1"
    and h1: "gestureHistoryRef refs1 = last5 (gestureHistoryRef refs @ map rawGesture fs')"
    by blast
  have len1: "length (gestureHistoryRef refs1) \<le> 5"
    unfolding h1 by (rule last5_length)
  from stabilize_present_step [OF pf len1, where E = E] obtain refs' r where
    st: "stabilize E refs1 f = Inr (refs', r)"
    and maj: "\<forall>l. 3 \<le> count_list (gestureHistoryRef refs') l \<longrightarrow>
                  lastEmittedGestureRef refs' = l
                  \<and> (\<forall>x. count_list (gestureHistoryRef refs') x \<le> count_list (gestureHistoryRef refs') l)"
    by blast
  have fd: "feed E refs fs = Inr refs'"
    unfolding fs by (simp add: feed_snoc f1 st)
  from feed_present_history [OF pres len, where E = E] fd
  have "gestureHistoryRef refs' = last5 (gestureHistoryRef refs @ replicate 5 g)"
    by (simp add: gs)
  then have h': "gestureHistoryRef refs' = replicate 5 g"
    by (simp add: last5_def)
  have "3 \<le> count_list (gestureHistoryRef refs') g"
    unfolding h' by (simp add: count_list_0_iff numeral_eq_Suc)
  with maj have "lastEmittedGestureRef refs' = g" by blast
  with fd h' show ?thesis by blast
qed

lemma feed_no_majority:
  assumes "length (gestureHistoryRef refs) \<le> 5"
    and "\<forall>f\<in>set fs. rawPresent f"
    and "\<forall>k. 0 < k \<and> k \<le> length fs \<longrightarrow>
           (\<forall>l. count_list (last5 (gestureHistoryRef refs @ map rawGesture (take k fs))) l < 3)"
  shows "\<exists>refs'. feed E refs fs = Inr refs'
           \<and> lastEmittedGestureRef refs' = lastEmittedGestureRef refs"
  using assms(2,3)
proof (induction fs rule: rev_induct)
  case Nil
  show ?case by simp
next
  case (snoc f fs)
  from snoc.prems(1) have pres: "\<forall>f\<in>set fs. rawPresent f" and pf: "rawPresent f" by auto
  have pre: "\<forall>k. 0 < k \<and> k \<le> length fs \<longrightarrow>
           (\<forall>l. count_list (last5 (gestureHistoryRef refs @ map rawGesture (take k fs))) l < 3)"
  proof (intro allI impI)
    fix k l assume k: "0 < k \<and> k \<le> length fs"
    then have "0 < k \<and> k \<le> length (fs @ [f])" by simp
    with snoc.prems(2) have
      "count_list (last5 (gestureHistoryRef refs @ map rawGesture (take k (fs @ [f])))) l < 3"
      by blast
    with k show "count_list (last5 (gestureHistoryRef refs @ map rawGesture (take k fs))) l < 3"
      by simp
  qed
  from snoc.IH [OF pres pre] obtain refs1 where
    f1: "feed E refs fs = Inr refs1"
    and e1: "lastEmittedGestureRef refs1 = lastEmittedGestureRef refs"
    by blast
  from feed_present_history [OF pres assms(1), where E = E] f1 have
    h1: "gestureHistoryRef refs1 = last5 (gestureHistoryRef refs @ map rawGesture fs)"
    by simp
  have len1: "length (gestureHistoryRef refs1) \<le> 5"
    unfolding h1 by (rule last5_length)
  from stabilize_present_step [OF pf len1, where E = E] obtain refs' r where
    st: "stabilize E refs1 f = Inr (refs', r)"
    and h': "gestureHistoryRef refs' = last5 (gestureHistoryRef refs1 @ [rawGesture f])"
    and keep: "(\<forall>l. count_list (gestureHistoryRef refs') l < 3) \<longrightarrow>
                  lastEmittedGestureRef refs' = lastEmittedGestureRef refs1"
    by blast
  have "gestureHistoryRef refs' = last5 (gestureHistoryRef refs @ map rawGesture (fs @ [f]))"
    using h' h1 last5_append [of "gestureHistoryRef refs @ map rawGesture fs" "[rawGesture f]"]
    by simp
  moreover have "\<forall>l. count_list (last5 (gestureHistoryRef refs
                          @ map rawGesture (take (length (fs @ [f])) (fs @ [f])))) l < 3"
    using snoc.prems(2) by (metis le_refl length_append_singleton zero_less_Suc)
  ultimately have "\<forall>l. count_list (gestureHistoryRef refs') l < 3" by simp
  with keep e1 have "lastEmittedGestureRef refs' = lastEmittedGestureRef refs" by simp
  moreover have "feed E refs (fs @ [f]) = Inr refs'"
    by (simp add: feed_snoc f1 st)
  ultimately show ?case by blast
qed


section \<open>The smoothing in exact arithmetic\<close>

text \<open>Without rounding the update is \<open>smoothed + (raw - smoothed) / 10\<close>, and a constant
  raw position is approached geometrically.\<close>

lemma feed_constant_position:
  assumes "\<forall>f\<in>set fs. rawPresent f \<and> rawX f = cx \<and> rawY f = cy"
  shows "\<exists>refs'. feed exact_env refs fs = Inr refs'
           \<and> vx (prevPositionRef refs') - cx = (9 / 10) ^ length fs * (vx (prevPositionRef refs) - cx)
           \<and> vy (prevPositionRef refs') - cy = (9 / 10) ^ length fs * (vy (prevPositionRef refs) - cy)"
  using assms
proof (induction fs arbitrary: refs)
  case Nil
  show ?case by simp
next
  case (Cons f fs)
  from Cons.prems have pf: "rawPresent f" and fx: "rawX f = cx" and fy: "rawY f = cy"
    and rest: "\<forall>f\<in>set fs. rawPresent f \<and> rawX f = cx \<and> rawY f = cy"
    by auto
  from stabilize_present [OF pf, where E = exact_env and refs = refs] obtain refs1 r where
    st: "stabilize exact_env refs f = Inr (refs1, r)"
    and px: "vx (prevPositionRef refs1) = vx (prevPositionRef refs) + (cx - vx (prevPositionRef refs)) * 0.1"
    and py: "vy (prevPositionRef refs1) = vy (prevPositionRef refs) + (cy - vy (prevPositionRef refs)) * 0.1"
    unfolding fx fy by (auto simp: exact_env_def)
  from Cons.IH [OF rest, of refs1] obtain refs' where
    fd: "feed exact_env refs1 fs = Inr refs'"
    and ex: "vx (prevPositionRef refs') - cx = (9 / 10) ^ length fs * (vx (prevPositionRef refs1) - cx)"
    and ey: "vy (prevPositionRef refs') - cy = (9 / 10) ^ length fs * (vy (prevPositionRef refs1) - cy)"
    by blast
  have "vx (prevPositionRef refs1) - cx = (9 / 10) * (vx (prevPositionRef refs) - cx)"
    unfolding px by (simp add: field_simps)
  with ex have ex': "vx (prevPositionRef refs') - cx
                     = (9 / 10) ^ length (f # fs) * (vx (prevPositionRef refs) - cx)"
    by simp
  have "vy (prevPositionRef refs1) - cy = (9 / 10) * (vy (prevPositionRef refs) - cy)"
    unfolding py by (simp add: field_simps)
  with ey have ey': "vy (prevPositionRef refs') - cy
                     = (9 / 10) ^ length (f # fs) * (vy (prevPositionRef refs) - cy)"
    by simp
  from st fd ex' ey' show ?case by simp
qed

lemma geometric_below:
  fixes e E :: real
  assumes "0 < e" "0 \<le> E"
  shows "\<exists>N. \<forall>n\<ge>N. (9 / 10) ^ n * E < e"
proof -
  have "0 < e / (E + 1)" using assms by simp
  from real_arch_pow_inv [OF this, of "9 / 10"] obtain N where
    N: "(9 / 10 :: real) ^ N < e / (E + 1)" by auto
  have "(9 / 10) ^ n * E < e" if "N \<le> n" for n
  proof -
    have "(9 / 10 :: real) ^ n \<le> (9 / 10) ^ N"
      using that by (intro power_decreasing) simp_all
    then have "(9 / 10 :: real) ^ n < e / (E + 1)" using N by (rule le_less_trans)
    then have lt: "(9 / 10) ^ n * (E + 1) < e"
      using assms by (simp add: pos_less_divide_eq)
    have "(9 / 10) ^ n * E \<le> (9 / 10) ^ n * (E + 1)"
      by (intro mult_left_mono) simp_all
    from this lt show ?thesis by (rule le_less_trans)
  qed
  then show ?thesis by blast
qed

lemma feed_converges:
  assumes "0 < e"
  shows "\<exists>N. \<forall>fs. N \<le> length fs \<and> (\<forall>f\<in>set fs. rawPresent f \<and> rawX f = cx \<and> rawY f = cy) \<longrightarrow>
           (\<exists>refs'. feed exact_env refs fs = Inr refs'
              \<and> \<bar>vx (prevPositionRef refs') - cx\<bar> < e
              \<and> \<bar>vy (prevPositionRef refs') - cy\<bar> < e)"
proof -
  from geometric_below [OF assms, of "\<bar>vx (prevPositionRef refs) - cx\<bar>"] obtain N1 where
    N1: "\<forall>n\<ge>N1. (9 / 10) ^ n * \<bar>vx (prevPositionRef refs) - cx\<bar> < e" by auto
  from geometric_below [OF assms, of "\<bar>vy (prevPositionRef refs) - cy\<bar>"] obtain N2 where
    N2: "\<forall>n\<ge>N2. (9 / 10) ^ n * \<bar>vy (prevPositionRef refs) - cy\<bar> < e" by auto
  have "\<exists>refs'. feed exact_env refs fs = Inr refs'
              \<and> \<bar>vx (prevPositionRef refs') - cx\<bar> < e
              \<and> \<bar>vy (prevPositionRef refs') - cy\<bar> < e"
    if len: "max N1 N2 \<le> length fs"
      and c: "\<forall>f\<in>set fs. rawPresent f \<and> rawX f = cx \<and> rawY f = cy" for fs
  proof -
    from feed_constant_position [OF c, of refs] obtain refs' where
      fd: "feed exact_env refs fs = Inr refs'"
      and ex: "vx (prevPositionRef refs') - cx = (9 / 10) ^ length fs * (vx (prevPositionRef refs) - cx)"
      and ey: "vy (prevPositionRef refs') - cy = (9 / 10) ^ length fs * (vy (prevPositionRef refs) - cy)"
      by blast
    have "\<bar>vx (prevPositionRef refs') - cx\<bar> = (9 / 10) ^ length fs * \<bar>vx (prevPositionRef refs) - cx\<bar>"
      unfolding ex by (simp add: abs_mult)
    moreover have "\<bar>vy (prevPositionRef refs') - cy\<bar> = (9 / 10) ^ length fs * \<bar>vy (prevPositionRef refs) - cy\<bar>"
      unfolding ey by (simp add: abs_mult)
    ultimately show ?thesis using fd N1 N2 len by simp
  qed
  then show ?thesis by blast
qed

section \<open>Claims on the gesture classifier and the stabilizer\<close>

lemma distance_spec_exact_vertical:
  "0 \<le> b \<Longrightarrow> distance_spec exact_env \<lparr>vx = 0, vy = b\<rparr> \<lparr>vx = 0, vy = 0\<rparr> = b"
  by (simp add: distance_spec_def exact_env_def)

lemma distance_spec_ieee_vertical:
  "0 \<le> b \<Longrightarrow> rnd64 b = b \<Longrightarrow> distance_spec ieee_env \<lparr>vx = 0, vy = b\<rparr> \<lparr>vx = 0, vy = 0\<rparr> = b"
  by (simp add: distance_spec_def ieee_env_def hypot64_def rnd64_0)

lemma rnd64_25_32: "rnd64 (25 / 32) = 25 / 32"
  by (rule rnd64_exact [where n = 53 and m = "25 * 2 ^ 48"]) simp_all

lemma rnd64_55_64: "rnd64 (55 / 64) = 55 / 64"
  by (rule rnd64_exact [where n = 53 and m = "55 * 2 ^ 47"]) simp_all

text \<open>The product \<open>dPip * 1.1\<close> at \<open>dPip = 25 / 32\<close>: the double for \<open>1.1\<close> lies
  above \<open>11 / 10\<close>, and the product rounds to the double above \<open>55 / 64\<close>.\<close>

lemma boundary_product:
  "rnd64 (rnd64 (11 / 10) * (25 / 32)) = 7740561859543041 / 2 ^ 53"
proof -
  have "rnd64 (2476979795053773 / 2 ^ 51 * (25 / 32)) = of_int 7740561859543041 / 2 ^ 53"
    by (rule rnd64_round) simp_all
  then show ?thesis by (simp add: rnd64_eleven_tenths)
qed

lemma boundary_hand_nth:
  "length boundary_hand = 21"
  "boundary_hand ! 0 = \<lparr>vx = 0, vy = 0\<rparr>"
  "boundary_hand ! 6 = \<lparr>vx = 0, vy = 25 / 32\<rparr>" "boundary_hand ! 8 = \<lparr>vx = 0, vy = 55 / 64\<rparr>"
  "boundary_hand ! 10 = \<lparr>vx = 0, vy = 25 / 32\<rparr>" "boundary_hand ! 12 = \<lparr>vx = 0, vy = 55 / 64\<rparr>"
  "boundary_hand ! 14 = \<lparr>vx = 0, vy = 25 / 32\<rparr>" "boundary_hand ! 16 = \<lparr>vx = 0, vy = 55 / 64\<rparr>"
  "boundary_hand ! 18 = \<lparr>vx = 0, vy = 25 / 32\<rparr>" "boundary_hand ! 20 = \<lparr>vx = 0, vy = 55 / 64\<rparr>"
  by (simp_all add: boundary_hand_def Let_def)

lemma boundary_folded_ieee:
  "folded_spec ieee_env boundary_hand 8 6" "folded_spec ieee_env boundary_hand 12 10"
  "folded_spec ieee_env boundary_hand 16 14" "folded_spec ieee_env boundary_hand 20 18"
proof -
  have d: "distance_spec ieee_env \<lparr>vx = 0, vy = 55 / 64\<rparr> \<lparr>vx = 0, vy = 0\<rparr> = 55 / 64"
    "distance_spec ieee_env \<lparr>vx = 0, vy = 25 / 32\<rparr> \<lparr>vx = 0, vy = 0\<rparr> = 25 / 32"
    by (simp_all add: distance_spec_ieee_vertical rnd64_25_32 rnd64_55_64)
  have r: "rnd ieee_env = rnd64" by (simp add: ieee_env_def)
  have lt: "(55 / 64 :: real) < 7740561859543041 / 2 ^ 53" by simp
  show "folded_spec ieee_env boundary_hand 8 6" "folded_spec ieee_env boundary_hand 12 10"
    "folded_spec ieee_env boundary_hand 16 14" "folded_spec ieee_env boundary_hand 20 18"
    unfolding folded_spec_def boundary_hand_nth d r boundary_product using lt by simp_all
qed

lemma boundary_folded_exact:
  "\<not> folded_spec exact_env boundary_hand 8 6" "\<not> folded_spec exact_env boundary_hand 12 10"
  "\<not> folded_spec exact_env boundary_hand 16 14" "\<not> folded_spec exact_env boundary_hand 20 18"
proof -
  have d: "distance_spec exact_env \<lparr>vx = 0, vy = 55 / 64\<rparr> \<lparr>vx = 0, vy = 0\<rparr> = 55 / 64"
    "distance_spec exact_env \<lparr>vx = 0, vy = 25 / 32\<rparr> \<lparr>vx = 0, vy = 0\<rparr> = 25 / 32"
    by (simp_all add: distance_spec_exact_vertical)
  have r: "rnd exact_env = (\<lambda>x. x)" by (simp add: exact_env_def)
  show "\<not> folded_spec exact_env boundary_hand 8 6" "\<not> folded_spec exact_env boundary_hand 12 10"
    "\<not> folded_spec exact_env boundary_hand 16 14" "\<not> folded_spec exact_env boundary_hand 20 18"
    unfolding folded_spec_def boundary_hand_nth d r by simp_all
qed

text \<open>
  C3. For a landmark set of 21 points the classifier tests each of index, middle,
  ring and pinky with \<open>distance(tip, wrist) < 1.1 * distance(pip, wrist)\<close>, the
  differences, the distances, the product and the literal \<open>1.1\<close> being those of
  the arithmetic of the runtime, and returns \<open>TWO_FINGERS\<close> when index and middle
  are not folded and ring and pinky are, otherwise \<open>FIST\<close> when at least three of
  the four are folded, otherwise \<open>OPEN_PALM\<close>. It returns \<open>NONE\<close> exactly when the
  input is absent or empty, and replacing a thumb landmark (index 1 to 4) never
  changes the result. This holds for every environment, for exact arithmetic as
  for the doubles.
\<close>

theorem detectGesture_classifies:
  "detectGesture E None = Inr NONE
   \<and> detectGesture E (Some []) = Inr NONE
   \<and> (detectGesture E inp = Inr NONE \<longleftrightarrow> inp = None \<or> inp = Some [])
   \<and> (length lm = 21 \<longrightarrow>
        detectGesture E (Some lm)
          = Inr (classify_spec (folded_spec E lm 8 6) (folded_spec E lm 12 10)
                               (folded_spec E lm 16 14) (folded_spec E lm 20 18))
        \<and> detectGesture E (Some lm) \<noteq> Inr NONE
        \<and> (\<forall>i\<in>{1, 2, 3, 4}. \<forall>q. detectGesture E (Some (lm[i := q])) = detectGesture E (Some lm)))"
proof -
  have thumb: "detectGesture E (Some (lm[i := q])) = detectGesture E (Some lm)"
    if len: "length lm = 21" and i: "i \<in> {1, 2, 3, 4}" for i q
  proof -
    have len': "length (lm[i := q]) = 21" using len by simp
    have "folded_spec E (lm[i := q]) 8 6 = folded_spec E lm 8 6"
      "folded_spec E (lm[i := q]) 12 10 = folded_spec E lm 12 10"
      "folded_spec E (lm[i := q]) 16 14 = folded_spec E lm 16 14"
      "folded_spec E (lm[i := q]) 20 18 = folded_spec E lm 20 18"
      using i by (auto simp: folded_spec_update)
    then show ?thesis
      by (simp only: detectGesture_21 [OF len] detectGesture_21 [OF len'])
  qed
  have a: "detectGesture E None = Inr NONE" "detectGesture E (Some []) = Inr NONE"
    by (simp_all add: detectGesture_def)
  have b: "detectGesture E (Some lm) \<noteq> Inr NONE" if "length lm = 21"
    using that detectGesture_NONE_iff [of E "Some lm"] by auto
  show ?thesis
    using a b thumb detectGesture_NONE_iff [of E inp] detectGesture_21 [of lm E]
    by blast
qed

text \<open>The witness is the hand at the boundary, in the arithmetic of the doubles: all
  four fingers test as folded, and the classifier returns \<open>FIST\<close>, also after a
  thumb landmark is moved.\<close>

theorem detectGesture_classifies_witness:
  "length boundary_hand = 21
   \<and> detectGesture ieee_env (Some boundary_hand) = Inr FIST
   \<and> detectGesture ieee_env (Some (boundary_hand[1 := \<lparr>vx = 7, vy = 7\<rparr>])) = Inr FIST
   \<and> (detectGesture ieee_env (Some [\<lparr>vx = 0, vy = 0\<rparr>]) = Inr NONE \<longleftrightarrow> False)"
proof -
  have len: "length boundary_hand = 21" by (rule boundary_hand_nth(1))
  from detectGesture_classifies [of ieee_env "Some [\<lparr>vx = 0, vy = 0\<rparr>]" boundary_hand]
    len boundary_folded_ieee
  show ?thesis
    by (simp add: classify_spec_def)
qed

text \<open>Read over exact distances the rule of the claim gives \<open>OPEN_PALM\<close> on the hand
  at the boundary, no finger being folded there; the classifier in the arithmetic of
  the doubles returns \<open>FIST\<close>.\<close>

theorem detectGesture_exact_rule_counterexample:
  "length boundary_hand = 21
   \<and> classify_spec (folded_spec exact_env boundary_hand 8 6)
                    (folded_spec exact_env boundary_hand 12 10)
                    (folded_spec exact_env boundary_hand 16 14)
                    (folded_spec exact_env boundary_hand 20 18) = OPEN_PALM
   \<and> detectGesture ieee_env (Some boundary_hand) = Inr FIST"
proof -
  have len: "length boundary_hand = 21" by (rule boundary_hand_nth(1))
  have 1: "classify_spec (folded_spec exact_env boundary_hand 8 6)
                    (folded_spec exact_env boundary_hand 12 10)
                    (folded_spec exact_env boundary_hand 16 14)
                    (folded_spec exact_env boundary_hand 20 18) = OPEN_PALM"
    using boundary_folded_exact by (simp add: classify_spec_def)
  have 2: "detectGesture ieee_env (Some boundary_hand) = Inr FIST"
    using boundary_folded_ieee by (simp add: detectGesture_21 [OF len] classify_spec_def)
  from len 1 2 show ?thesis by (intro conjI)
qed

text \<open>
  C4. On a frame with a hand present the history becomes the last five raw labels
  (the new one pushed, the oldest dropped when that makes six), the emitted gesture
  becomes the label whose count in that history is at least 3, which is then the
  most frequent one, and stays what it was when no label reaches 3. Five identical
  raw gestures in a row leave that gesture emitted; a run of present frames in which
  no label ever reaches 3 of the window leaves the emitted gesture as it was after
  every frame of the run.
\<close>

theorem debounce_majority_window:
  "(rawPresent f \<and> length (gestureHistoryRef refs) \<le> 5 \<longrightarrow>
      (\<exists>refs' r. stabilize E refs f = Inr (refs', r)
         \<and> gestureHistoryRef refs' = last5 (gestureHistoryRef refs @ [rawGesture f])
         \<and> length (gestureHistoryRef refs') \<le> 5
         \<and> gesture r = lastEmittedGestureRef refs'
         \<and> (\<forall>l. 3 \<le> count_list (gestureHistoryRef refs') l \<longrightarrow>
                lastEmittedGestureRef refs' = l
                \<and> (\<forall>x. count_list (gestureHistoryRef refs') x \<le> count_list (gestureHistoryRef refs') l))
         \<and> ((\<forall>l. count_list (gestureHistoryRef refs') l < 3) \<longrightarrow>
                lastEmittedGestureRef refs' = lastEmittedGestureRef refs)))
   \<and> (length (gestureHistoryRef refs) \<le> 5 \<and> length fs = 5
        \<and> (\<forall>f\<in>set fs. rawPresent f \<and> rawGesture f = g) \<longrightarrow>
      (\<exists>refs'. feed E refs fs = Inr refs' \<and> gestureHistoryRef refs' = replicate 5 g
         \<and> lastEmittedGestureRef refs' = g))
   \<and> (length (gestureHistoryRef refs) \<le> 5 \<and> (\<forall>f\<in>set gs. rawPresent f)
        \<and> (\<forall>k. 0 < k \<and> k \<le> length gs \<longrightarrow>
              (\<forall>l. count_list (last5 (gestureHistoryRef refs @ map rawGesture (take k gs))) l < 3)) \<longrightarrow>
      (\<forall>k\<le>length gs. \<exists>refs'. feed E refs (take k gs) = Inr refs'
         \<and> lastEmittedGestureRef refs' = lastEmittedGestureRef refs))"
proof (intro conjI impI)
  assume "rawPresent f \<and> length (gestureHistoryRef refs) \<le> 5"
  then have pf: "rawPresent f" and len: "length (gestureHistoryRef refs) \<le> 5" by auto
  from stabilize_present_step [OF pf len, where E = E]
  show "\<exists>refs' r. stabilize E refs f = Inr (refs', r)
         \<and> gestureHistoryRef refs' = last5 (gestureHistoryRef refs @ [rawGesture f])
         \<and> length (gestureHistoryRef refs') \<le> 5
         \<and> gesture r = lastEmittedGestureRef refs'
         \<and> (\<forall>l. 3 \<le> count_list (gestureHistoryRef refs') l \<longrightarrow>
                lastEmittedGestureRef refs' = l
                \<and> (\<forall>x. count_list (gestureHistoryRef refs') x \<le> count_list (gestureHistoryRef refs') l))
         \<and> ((\<forall>l. count_list (gestureHistoryRef refs') l < 3) \<longrightarrow>
                lastEmittedGestureRef refs' = lastEmittedGestureRef refs)"
    by blast
next
  assume "length (gestureHistoryRef refs) \<le> 5 \<and> length fs = 5
        \<and> (\<forall>f\<in>set fs. rawPresent f \<and> rawGesture f = g)"
  then show "\<exists>refs'. feed E refs fs = Inr refs' \<and> gestureHistoryRef refs' = replicate 5 g
         \<and> lastEmittedGestureRef refs' = g"
    using feed_five_identical [of refs fs g E] by blast
next
  assume a: "length (gestureHistoryRef refs) \<le> 5 \<and> (\<forall>f\<in>set gs. rawPresent f)
        \<and> (\<forall>k. 0 < k \<and> k \<le> length gs \<longrightarrow>
              (\<forall>l. count_list (last5 (gestureHistoryRef refs @ map rawGesture (take k gs))) l < 3))"
  show "\<forall>k\<le>length gs. \<exists>refs'. feed E refs (take k gs) = Inr refs'
         \<and> lastEmittedGestureRef refs' = lastEmittedGestureRef refs"
  proof (intro allI impI)
    fix k assume k: "k \<le> length gs"
    have p: "\<forall>f\<in>set (take k gs). rawPresent f"
      using a by (meson in_set_takeD)
    have q: "\<forall>j. 0 < j \<and> j \<le> length (take k gs) \<longrightarrow>
              (\<forall>l. count_list (last5 (gestureHistoryRef refs
                       @ map rawGesture (take j (take k gs)))) l < 3)"
    proof (intro allI impI)
      fix j l assume j: "0 < j \<and> j \<le> length (take k gs)"
      then have "0 < j \<and> j \<le> length gs" and "min j k = j" using k by auto
      with a show "count_list (last5 (gestureHistoryRef refs
                       @ map rawGesture (take j (take k gs)))) l < 3"
        by simp
    qed
    from a have len: "length (gestureHistoryRef refs) \<le> 5" by simp
    from feed_no_majority [OF len p q, where E = E]
    show "\<exists>refs'. feed E refs (take k gs) = Inr refs'
         \<and> lastEmittedGestureRef refs' = lastEmittedGestureRef refs" .
  qed
qed

theorem debounce_majority_window_witness:
  "(\<exists>refs' r. stabilize ieee_env (initialRefs\<lparr>gestureHistoryRef := [FIST, FIST, OPEN_PALM, NONE, TWO_FINGERS]\<rparr>)
                   \<lparr>rawGesture = FIST, rawX = 0, rawY = 0, rawPresent = True\<rparr> = Inr (refs', r)
       \<and> gestureHistoryRef refs' = [FIST, OPEN_PALM, NONE, TWO_FINGERS, FIST]
       \<and> gesture r = lastEmittedGestureRef refs')
   \<and> (\<exists>refs'. feed ieee_env (initialRefs\<lparr>gestureHistoryRef := [FIST, FIST, OPEN_PALM, NONE, TWO_FINGERS]\<rparr>)
                  (replicate 5 \<lparr>rawGesture = OPEN_PALM, rawX = 0, rawY = 0, rawPresent = True\<rparr>)
                = Inr refs'
       \<and> gestureHistoryRef refs' = replicate 5 OPEN_PALM
       \<and> lastEmittedGestureRef refs' = OPEN_PALM)
   \<and> (\<exists>refs'. feed ieee_env (initialRefs\<lparr>gestureHistoryRef := [FIST, FIST, OPEN_PALM, NONE, TWO_FINGERS]\<rparr>)
                  [\<lparr>rawGesture = OPEN_PALM, rawX = 0, rawY = 0, rawPresent = True\<rparr>,
                   \<lparr>rawGesture = TWO_FINGERS, rawX = 0, rawY = 0, rawPresent = True\<rparr>]
                = Inr refs'
       \<and> lastEmittedGestureRef refs' = NONE)"
proof -
  let ?R = "initialRefs\<lparr>gestureHistoryRef := [FIST, FIST, OPEN_PALM, NONE, TWO_FINGERS]\<rparr>"
  let ?f = "\<lparr>rawGesture = FIST, rawX = 0, rawY = 0, rawPresent = True\<rparr>"
  let ?o = "\<lparr>rawGesture = OPEN_PALM, rawX = 0, rawY = 0, rawPresent = True\<rparr>"
  let ?t = "\<lparr>rawGesture = TWO_FINGERS, rawX = 0, rawY = 0, rawPresent = True\<rparr>"
  have len: "length (gestureHistoryRef ?R) \<le> 5" by (simp add: initialRefs_def)
  have nomaj: "\<forall>k. 0 < k \<and> k \<le> length [?o, ?t] \<longrightarrow>
          (\<forall>l. count_list (last5 (gestureHistoryRef ?R @ map rawGesture (take k [?o, ?t]))) l < 3)"
  proof (intro allI impI)
    fix k :: nat and l assume "0 < k \<and> k \<le> length [?o, ?t]"
    then have "k = 1 \<or> k = 2" by auto
    then show "count_list (last5 (gestureHistoryRef ?R @ map rawGesture (take k [?o, ?t]))) l < 3"
      by (auto simp: last5_def initialRefs_def)
  qed
  note inst = debounce_majority_window [of ?f ?R ieee_env "replicate 5 ?o" OPEN_PALM "[?o, ?t]"]
  from inst len have 1: "\<exists>refs' r. stabilize ieee_env ?R ?f = Inr (refs', r)
       \<and> gestureHistoryRef refs' = [FIST, OPEN_PALM, NONE, TWO_FINGERS, FIST]
       \<and> gesture r = lastEmittedGestureRef refs'"
    by (simp add: last5_def initialRefs_def) blast
  from inst len have 2: "\<exists>refs'. feed ieee_env ?R (replicate 5 ?o) = Inr refs'
       \<and> gestureHistoryRef refs' = replicate 5 OPEN_PALM
       \<and> lastEmittedGestureRef refs' = OPEN_PALM"
    by simp
  from inst len nomaj have "\<forall>k\<le>length [?o, ?t]. \<exists>refs'. feed ieee_env ?R (take k [?o, ?t]) = Inr refs'
         \<and> lastEmittedGestureRef refs' = lastEmittedGestureRef ?R"
    by simp
  then have "2 \<le> length [?o, ?t] \<longrightarrow> (\<exists>refs'. feed ieee_env ?R (take 2 [?o, ?t]) = Inr refs'
         \<and> lastEmittedGestureRef refs' = lastEmittedGestureRef ?R)"
    by (rule spec)
  then have 3: "\<exists>refs'. feed ieee_env ?R [?o, ?t] = Inr refs' \<and> lastEmittedGestureRef refs' = NONE"
    by (simp add: initialRefs_def del: feed.simps)
  from 1 2 3 show ?thesis by blast
qed

text \<open>
  C5. On a frame with no hand the stabilizer, whatever came before, empties the
  history, emits \<open>NONE\<close> and keeps the smoothed position as it is, on that very
  frame; so every emitted state with \<open>isPresent\<close> false has gesture \<open>NONE\<close>.
\<close>

theorem presence_loss_immediate:
  "(\<not> rawPresent f \<longrightarrow>
      stabilize E refs f =
        Inr (refs\<lparr>gestureHistoryRef := [], lastEmittedGestureRef := NONE\<rparr>,
             \<lparr>gesture = NONE, position = prevPositionRef refs, isPresent = False\<rparr>))
   \<and> (feed E refs0 fs = Inr refs \<and> \<not> rawPresent f \<longrightarrow>
        (\<exists>refs'. feed E refs0 (fs @ [f]) = Inr refs' \<and> gestureHistoryRef refs' = []
           \<and> lastEmittedGestureRef refs' = NONE \<and> prevPositionRef refs' = prevPositionRef refs))
   \<and> (stabilize E refs f = Inr (refs1, r1) \<and> \<not> isPresent r1 \<longrightarrow> gesture r1 = NONE)
   \<and> (onResults E refs m = Inr (refs2, Some r2) \<and> \<not> isPresent r2 \<longrightarrow> gesture r2 = NONE)"
proof (intro conjI impI)
  assume "\<not> rawPresent f"
  then show "stabilize E refs f =
        Inr (refs\<lparr>gestureHistoryRef := [], lastEmittedGestureRef := NONE\<rparr>,
             \<lparr>gesture = NONE, position = prevPositionRef refs, isPresent = False\<rparr>)"
    by (rule stabilize_absent)
next
  assume a: "feed E refs0 fs = Inr refs \<and> \<not> rawPresent f"
  then have "stabilize E refs f =
        Inr (refs\<lparr>gestureHistoryRef := [], lastEmittedGestureRef := NONE\<rparr>,
             \<lparr>gesture = NONE, position = prevPositionRef refs, isPresent = False\<rparr>)"
    by (simp add: stabilize_absent)
  with a have "feed E refs0 (fs @ [f])
               = Inr (refs\<lparr>gestureHistoryRef := [], lastEmittedGestureRef := NONE\<rparr>)"
    by (simp add: feed_snoc)
  then show "\<exists>refs'. feed E refs0 (fs @ [f]) = Inr refs' \<and> gestureHistoryRef refs' = []
           \<and> lastEmittedGestureRef refs' = NONE \<and> prevPositionRef refs' = prevPositionRef refs"
    by simp
next
  assume "stabilize E refs f = Inr (refs1, r1) \<and> \<not> isPresent r1"
  then show "gesture r1 = NONE" using stabilize_invariant by blast
next
  assume a: "onResults E refs m = Inr (refs2, Some r2) \<and> \<not> isPresent r2"
  then obtain g where "stabilize E refs g = Inr (refs2, r2)"
    by (auto simp: onResults_def split: if_splits sum.splits)
  with a show "gesture r2 = NONE" using stabilize_invariant by blast
qed

theorem presence_loss_immediate_witness:
  "stabilize ieee_env \<lparr>isMountedRef = True, prevPositionRef = \<lparr>vx = 0.25, vy = 0.75\<rparr>,
              gestureHistoryRef = [FIST, FIST, FIST], lastEmittedGestureRef = FIST\<rparr>
             \<lparr>rawGesture = NONE, rawX = 0.5, rawY = 0.5, rawPresent = False\<rparr>
   = Inr (\<lparr>isMountedRef = True, prevPositionRef = \<lparr>vx = 0.25, vy = 0.75\<rparr>,
            gestureHistoryRef = [], lastEmittedGestureRef = NONE\<rparr>,
          \<lparr>gesture = NONE, position = \<lparr>vx = 0.25, vy = 0.75\<rparr>, isPresent = False\<rparr>)
   \<and> (\<exists>refs'. feed ieee_env \<lparr>isMountedRef = True, prevPositionRef = \<lparr>vx = 0.25, vy = 0.75\<rparr>,
                     gestureHistoryRef = [FIST, FIST, FIST], lastEmittedGestureRef = FIST\<rparr>
                   ([] @ [\<lparr>rawGesture = NONE, rawX = 0.5, rawY = 0.5, rawPresent = False\<rparr>]) = Inr refs'
         \<and> gestureHistoryRef refs' = [] \<and> lastEmittedGestureRef refs' = NONE
         \<and> prevPositionRef refs' = \<lparr>vx = 0.25, vy = 0.75\<rparr>)
   \<and> gesture \<lparr>gesture = NONE, position = \<lparr>vx = 0.25, vy = 0.75\<rparr>, isPresent = False\<rparr> = NONE"
proof -
  let ?R = "\<lparr>isMountedRef = True, prevPositionRef = \<lparr>vx = 0.25, vy = 0.75\<rparr>,
              gestureHistoryRef = [FIST, FIST, FIST], lastEmittedGestureRef = FIST\<rparr>"
  let ?f = "\<lparr>rawGesture = NONE, rawX = 0.5, rawY = 0.5, rawPresent = False\<rparr>"
  let ?R' = "\<lparr>isMountedRef = True, prevPositionRef = \<lparr>vx = 0.25, vy = 0.75\<rparr>,
            gestureHistoryRef = [], lastEmittedGestureRef = NONE\<rparr>"
  let ?r = "\<lparr>gesture = NONE, position = \<lparr>vx = 0.25, vy = 0.75\<rparr>, isPresent = False\<rparr>"
  note inst = presence_loss_immediate [of ?f ieee_env ?R ?R "[]" ?R' ?r "Some []" ?R' ?r]
  have a: "\<not> rawPresent ?f" by simp
  have b: "feed ieee_env ?R [] = Inr ?R" by simp
  from inst a have 1: "stabilize ieee_env ?R ?f = Inr (?R', ?r)" by simp
  from inst a b have 2: "\<exists>refs'. feed ieee_env ?R ([] @ [?f]) = Inr refs'
         \<and> gestureHistoryRef refs' = [] \<and> lastEmittedGestureRef refs' = NONE
         \<and> prevPositionRef refs' = \<lparr>vx = 0.25, vy = 0.75\<rparr>"
    by (simp del: feed.simps append.simps)
  have c: "\<not> isPresent ?r" by simp
  from inst 1 c have 3: "gesture ?r = NONE" by blast
  from 1 2 3 show ?thesis by blast
qed

text \<open>
  C8. When several labels tie for the highest count in the history, the reduce over
  the keys of the counts settles on the one that comes last in the iteration order
  of those keys, the keys being listed in the order of their first occurrence in the
  history: every key before the chosen one counts no more than it, every key after
  it strictly less.
\<close>

theorem dominant_tie_break:
  "\<exists>d pre post.
      dominant_gesture (count_gestures (push_history h g)) = Inr d
      \<and> map fst (count_gestures (push_history h g)) = rev (remdups (rev (push_history h g)))
      \<and> map fst (count_gestures (push_history h g)) = pre @ d # post
      \<and> (\<forall>x\<in>set (push_history h g).
            map_of (count_gestures (push_history h g)) x = Some (count_list (push_history h g) x))
      \<and> (\<forall>x\<in>set pre. count_list (push_history h g) x \<le> count_list (push_history h g) d)
      \<and> (\<forall>x\<in>set post. count_list (push_history h g) x < count_list (push_history h g) d)"
proof -
  from dominant_gesture_history [OF push_history_not_Nil, of h g] obtain d pre post where
    "dominant_gesture (count_gestures (push_history h g)) = Inr d"
    "map fst (count_gestures (push_history h g)) = pre @ d # post"
    "\<forall>x\<in>set pre. count_list (push_history h g) x \<le> count_list (push_history h g) d"
    "\<forall>x\<in>set post. count_list (push_history h g) x < count_list (push_history h g) d"
    by blast
  moreover have "\<forall>x\<in>set (push_history h g).
            map_of (count_gestures (push_history h g)) x = Some (count_list (push_history h g) x)"
    by (simp add: map_of_count_gestures)
  ultimately show ?thesis
    using keys_count_gestures [of "push_history h g"] by blast
qed

theorem dominant_tie_break_witness:
  "dominant_gesture (count_gestures (push_history [FIST, OPEN_PALM, OPEN_PALM, FIST] TWO_FINGERS))
     = Inr OPEN_PALM
   \<and> map fst (count_gestures (push_history [FIST, OPEN_PALM, OPEN_PALM, FIST] TWO_FINGERS))
     = [FIST, OPEN_PALM, TWO_FINGERS]
   \<and> count_list (push_history [FIST, OPEN_PALM, OPEN_PALM, FIST] TWO_FINGERS) FIST
     = count_list (push_history [FIST, OPEN_PALM, OPEN_PALM, FIST] TWO_FINGERS) OPEN_PALM"
proof -
  let ?H = "push_history [FIST, OPEN_PALM, OPEN_PALM, FIST] TWO_FINGERS"
  have H: "?H = [FIST, OPEN_PALM, OPEN_PALM, FIST, TWO_FINGERS]"
    by (simp add: push_history_def)
  from dominant_tie_break [of "[FIST, OPEN_PALM, OPEN_PALM, FIST]" TWO_FINGERS]
  obtain d pre post where
    dom: "dominant_gesture (count_gestures ?H) = Inr d"
    and keys: "map fst (count_gestures ?H) = rev (remdups (rev ?H))"
    and dec: "map fst (count_gestures ?H) = pre @ d # post"
    and pre: "\<forall>x\<in>set pre. count_list ?H x \<le> count_list ?H d"
    and post: "\<forall>x\<in>set post. count_list ?H x < count_list ?H d"
    by blast
  have k: "map fst (count_gestures ?H) = [FIST, OPEN_PALM, TWO_FINGERS]"
    using keys unfolding H by simp
  from dec k have "[FIST, OPEN_PALM, TWO_FINGERS] = pre @ d # post" by simp
  then have "(pre = [] \<and> d = FIST \<and> post = [OPEN_PALM, TWO_FINGERS])
             \<or> (pre = [FIST] \<and> d = OPEN_PALM \<and> post = [TWO_FINGERS])
             \<or> (pre = [FIST, OPEN_PALM] \<and> d = TWO_FINGERS \<and> post = [])"
    by (auto simp: Cons_eq_append_conv)
  then have "d = OPEN_PALM"
    using pre post unfolding H by auto
  with dom k show ?thesis unfolding H by simp
qed

theorem dominant_tie_break_counterexample:
  "feed ieee_env initialRefs [\<lparr>rawGesture = FIST, rawX = 0.5, rawY = 0.5, rawPresent = True\<rparr>]
     = Inr (initialRefs\<lparr>gestureHistoryRef := [FIST]\<rparr>)
   \<and> push_history [FIST] OPEN_PALM = [FIST, OPEN_PALM]
   \<and> count_gestures [FIST, OPEN_PALM] = [(FIST, 1), (OPEN_PALM, 1)]
   \<and> dominant_gesture (count_gestures (push_history [FIST] OPEN_PALM)) = Inr OPEN_PALM
   \<and> dominant_gesture (count_gestures (push_history [FIST] OPEN_PALM))
       \<noteq> Inr (hd (map fst (count_gestures (push_history [FIST] OPEN_PALM))))"
  by (simp add: initialRefs_def stabilize_def push_history_def count_gestures_def
      dominant_gesture_def counts_gt_def counts_ge3_def ieee_env_def rnd64_0 rnd64_half)


















section \<open>The mode machine\<close>

lemma onHandUpdateProxy_appState:
  assumes "appStateRef a = appState a" "photosRef a = photos a"
    and "isPresent r \<or> gesture r = NONE"
  shows "appState (onHandUpdateProxy r a)
         = (if gesture r \<noteq> currentGesture a
            then transition_spec (appState a) (gesture r) (photos a \<noteq> [])
            else appState a)"
  using assms
  by (cases "gesture r")
     (auto simp: onHandUpdateProxy_def transition_spec_def Let_def)

lemma onHandUpdateProxy_currentGesture:
  "currentGesture (onHandUpdateProxy r a) = gesture r"
  by (cases "gesture r") (auto simp: onHandUpdateProxy_def Let_def)

lemma onHandUpdateProxy_photos:
  "photos (onHandUpdateProxy r a) = photos a
   \<and> activePhotoIndex (onHandUpdateProxy r a) = activePhotoIndex a
   \<and> handDataRef (onHandUpdateProxy r a) = r
   \<and> isHandPresent (onHandUpdateProxy r a) = isPresent r"
  by (cases "gesture r") (auto simp: onHandUpdateProxy_def Let_def)

text \<open>The run of the specification's example: from the initial state with one
  photo, an \<open>OPEN_PALM\<close> edge, a \<open>TWO_FINGERS\<close> edge and a \<open>FIST\<close> edge lead
  through \<open>SCATTER\<close> and \<open>ZOOM\<close> back to \<open>TREE\<close>; with no photo the
  \<open>TWO_FINGERS\<close> edge leaves the mode at \<open>SCATTER\<close>.\<close>

lemma mode_machine_run:
  "appState (appTick (syncRefs (handlePhotoUpload [''blob:1''] initialApp))
               \<lparr>gesture = OPEN_PALM, position = \<lparr>vx = 0.5, vy = 0.5\<rparr>, isPresent = True\<rparr>)
     = SCATTER
   \<and> appState (appTick (appTick (syncRefs (handlePhotoUpload [''blob:1''] initialApp))
               \<lparr>gesture = OPEN_PALM, position = \<lparr>vx = 0.5, vy = 0.5\<rparr>, isPresent = True\<rparr>)
               \<lparr>gesture = TWO_FINGERS, position = \<lparr>vx = 0.5, vy = 0.5\<rparr>, isPresent = True\<rparr>)
     = ZOOM
   \<and> appState (appTick (appTick (appTick (syncRefs (handlePhotoUpload [''blob:1''] initialApp))
               \<lparr>gesture = OPEN_PALM, position = \<lparr>vx = 0.5, vy = 0.5\<rparr>, isPresent = True\<rparr>)
               \<lparr>gesture = TWO_FINGERS, position = \<lparr>vx = 0.5, vy = 0.5\<rparr>, isPresent = True\<rparr>)
               \<lparr>gesture = FIST, position = \<lparr>vx = 0.5, vy = 0.5\<rparr>, isPresent = True\<rparr>)
     = TREE
   \<and> appState (appTick (appTick initialApp
               \<lparr>gesture = OPEN_PALM, position = \<lparr>vx = 0.5, vy = 0.5\<rparr>, isPresent = True\<rparr>)
               \<lparr>gesture = TWO_FINGERS, position = \<lparr>vx = 0.5, vy = 0.5\<rparr>, isPresent = True\<rparr>)
     = SCATTER"
  by (simp add: appTick_def syncRefs_def onHandUpdateProxy_def handlePhotoUpload_def
      initialApp_def Let_def)

section \<open>Claims on the mode machine and the photo list\<close>

text \<open>
  C2. The mode starts as \<open>TREE\<close> (assembled). With the refs in step with the state
  and a result that the stabilizer emits, the mode after the update is the old one
  when the emitted gesture equals the current one, and otherwise the one the
  transition table gives: \<open>FIST\<close> leads to \<open>TREE\<close>, \<open>OPEN_PALM\<close> to \<open>SCATTER\<close>,
  \<open>TWO_FINGERS\<close> to \<open>ZOOM\<close> exactly from \<open>SCATTER\<close> with at least one photo, and
  every other pair leaves the mode as it is. The current gesture becomes the emitted
  one, and the tick leaves the refs in step again.
\<close>

theorem mode_machine_edges:
  "appState initialApp = TREE
   \<and> (appStateRef a = appState a \<and> photosRef a = photos a
        \<and> stabilize E refs f = Inr (refs', r) \<longrightarrow>
        appState (onHandUpdateProxy r a)
          = (if gesture r \<noteq> currentGesture a
             then transition_spec (appState a) (gesture r) (photos a \<noteq> [])
             else appState a)
        \<and> currentGesture (onHandUpdateProxy r a) = gesture r
        \<and> appState (appTick a r) = appState (onHandUpdateProxy r a)
        \<and> appStateRef (appTick a r) = appState (appTick a r)
        \<and> photosRef (appTick a r) = photos (appTick a r))"
proof (rule conjI)
  show "appState initialApp = TREE" by (simp add: initialApp_def)
next
  show "appStateRef a = appState a \<and> photosRef a = photos a
        \<and> stabilize E refs f = Inr (refs', r) \<longrightarrow>
        appState (onHandUpdateProxy r a)
          = (if gesture r \<noteq> currentGesture a
             then transition_spec (appState a) (gesture r) (photos a \<noteq> [])
             else appState a)
        \<and> currentGesture (onHandUpdateProxy r a) = gesture r
        \<and> appState (appTick a r) = appState (onHandUpdateProxy r a)
        \<and> appStateRef (appTick a r) = appState (appTick a r)
        \<and> photosRef (appTick a r) = photos (appTick a r)"
  proof (rule impI)
    assume a: "appStateRef a = appState a \<and> photosRef a = photos a
        \<and> stabilize E refs f = Inr (refs', r)"
    then have inv: "isPresent r \<or> gesture r = NONE"
      using stabilize_invariant [of E refs f refs' r] by blast
    from a have s1: "appStateRef a = appState a" and s2: "photosRef a = photos a" by auto
    have 1: "appState (onHandUpdateProxy r a)
          = (if gesture r \<noteq> currentGesture a
             then transition_spec (appState a) (gesture r) (photos a \<noteq> [])
             else appState a)"
      by (rule onHandUpdateProxy_appState [OF s1 s2 inv])
    have 2: "currentGesture (onHandUpdateProxy r a) = gesture r"
      by (rule onHandUpdateProxy_currentGesture)
    have 3: "appState (appTick a r) = appState (onHandUpdateProxy r a)"
      "appStateRef (appTick a r) = appState (appTick a r)"
      "photosRef (appTick a r) = photos (appTick a r)"
      by (simp_all add: appTick_def syncRefs_def)
    from 1 2 3 show "appState (onHandUpdateProxy r a)
          = (if gesture r \<noteq> currentGesture a
             then transition_spec (appState a) (gesture r) (photos a \<noteq> [])
             else appState a)
        \<and> currentGesture (onHandUpdateProxy r a) = gesture r
        \<and> appState (appTick a r) = appState (onHandUpdateProxy r a)
        \<and> appStateRef (appTick a r) = appState (appTick a r)
        \<and> photosRef (appTick a r) = photos (appTick a r)"
      by blast
  qed
qed

theorem mode_machine_edges_witness:
  "stabilize ieee_env (initialRefs\<lparr>gestureHistoryRef := [OPEN_PALM, TWO_FINGERS, TWO_FINGERS],
                          lastEmittedGestureRef := OPEN_PALM\<rparr>)
             \<lparr>rawGesture = TWO_FINGERS, rawX = 0.5, rawY = 0.5, rawPresent = True\<rparr>
     = Inr (initialRefs\<lparr>gestureHistoryRef := [OPEN_PALM, TWO_FINGERS, TWO_FINGERS, TWO_FINGERS],
                         lastEmittedGestureRef := TWO_FINGERS\<rparr>,
            \<lparr>gesture = TWO_FINGERS, position = \<lparr>vx = 0.5, vy = 0.5\<rparr>, isPresent = True\<rparr>)
   \<and> appState (onHandUpdateProxy
                 \<lparr>gesture = TWO_FINGERS, position = \<lparr>vx = 0.5, vy = 0.5\<rparr>, isPresent = True\<rparr>
                 (initialApp\<lparr>appState := SCATTER, photos := [''blob:1''],
                             currentGesture := OPEN_PALM, appStateRef := SCATTER,
                             photosRef := [''blob:1'']\<rparr>)) = ZOOM
   \<and> appState (onHandUpdateProxy
                 \<lparr>gesture = TWO_FINGERS, position = \<lparr>vx = 0.5, vy = 0.5\<rparr>, isPresent = True\<rparr>
                 (initialApp\<lparr>appState := SCATTER, currentGesture := OPEN_PALM,
                             appStateRef := SCATTER\<rparr>)) = SCATTER"
proof -
  let ?R = "initialRefs\<lparr>gestureHistoryRef := [OPEN_PALM, TWO_FINGERS, TWO_FINGERS],
                          lastEmittedGestureRef := OPEN_PALM\<rparr>"
  let ?f = "\<lparr>rawGesture = TWO_FINGERS, rawX = 0.5, rawY = 0.5, rawPresent = True\<rparr>"
  let ?R' = "initialRefs\<lparr>gestureHistoryRef := [OPEN_PALM, TWO_FINGERS, TWO_FINGERS, TWO_FINGERS],
                         lastEmittedGestureRef := TWO_FINGERS\<rparr>"
  let ?r = "\<lparr>gesture = TWO_FINGERS, position = \<lparr>vx = 0.5, vy = 0.5\<rparr>, isPresent = True\<rparr>"
  let ?a = "initialApp\<lparr>appState := SCATTER, photos := [''blob:1''],
                             currentGesture := OPEN_PALM, appStateRef := SCATTER,
                             photosRef := [''blob:1'']\<rparr>"
  let ?b = "initialApp\<lparr>appState := SCATTER, currentGesture := OPEN_PALM,
                             appStateRef := SCATTER\<rparr>"
  have st: "stabilize ieee_env ?R ?f = Inr (?R', ?r)"
    by (simp add: initialRefs_def stabilize_def push_history_def count_gestures_def
        dominant_gesture_def counts_gt_def counts_ge3_def ieee_env_def rnd64_0 rnd64_half)
  have sa: "appStateRef ?a = appState ?a \<and> photosRef ?a = photos ?a" by simp
  have sb: "appStateRef ?b = appState ?b \<and> photosRef ?b = photos ?b"
    by (simp add: initialApp_def)
  from mode_machine_edges [of ?a ieee_env ?R ?f ?R' ?r] st sa
  have 1: "appState (onHandUpdateProxy ?r ?a) = ZOOM"
    by (simp add: transition_spec_def)
  from mode_machine_edges [of ?b ieee_env ?R ?f ?R' ?r] st sb
  have 2: "appState (onHandUpdateProxy ?r ?b) = SCATTER"
    by (simp add: transition_spec_def initialApp_def)
  from st 1 2 show ?thesis by blast
qed

text \<open>
  C10. Clearing the photos empties the photo list and sets the selection index to
  0; every other field of the state keeps its value, the mode among them, also when
  the mode is \<open>ZOOM\<close> (focused).
\<close>

theorem clearPhotos_frame:
  "photos (clearPhotos a) = []
   \<and> activePhotoIndex (clearPhotos a) = 0
   \<and> clearPhotos a = a\<lparr>photos := [], activePhotoIndex := 0\<rparr>
   \<and> appState (clearPhotos a) = appState a
   \<and> isHandPresent (clearPhotos a) = isHandPresent a
   \<and> currentGesture (clearPhotos a) = currentGesture a
   \<and> appStateRef (clearPhotos a) = appStateRef a
   \<and> photosRef (clearPhotos a) = photosRef a
   \<and> handDataRef (clearPhotos a) = handDataRef a
   \<and> appState (clearPhotos (a\<lparr>appState := ZOOM\<rparr>)) = ZOOM"
  by (simp add: clearPhotos_def)

section \<open>The scan of the pointer selector\<close>

lemma select_scan_Cons:
  "select_scan E P st X Y (p # ps) i (m, c)
   = select_scan E P st X Y ps (Suc i)
       (if below (scan_dist E P st X Y p) m then (Finite (scan_dist E P st X Y p), int i) else (m, c))"
  by (simp add: scan_dist_def Let_def)

lemma select_scan_Finite:
  assumes "select_scan E P st X Y ps i (Finite a, c) = (m', c')"
  shows "\<exists>v. m' = Finite v \<and> v \<le> a \<and> (\<forall>p\<in>set ps. v \<le> scan_dist E P st X Y p)
           \<and> ((c' = c \<and> v = a)
                \<or> (\<exists>j<length ps. c' = int (i + j) \<and> scan_dist E P st X Y (ps ! j) = v \<and> v < a))"
  using assms
proof (induction ps arbitrary: i a c)
  case Nil
  then show ?case by simp
next
  case (Cons p ps)
  let ?d = "scan_dist E P st X Y p"
  show ?case
  proof (cases "?d < a")
    case True
    with Cons.prems have "select_scan E P st X Y ps (Suc i) (Finite ?d, int i) = (m', c')"
      by (simp only: select_scan_Cons below.simps if_True)
    from Cons.IH [OF this] obtain v where
      m': "m' = Finite v" and le: "v \<le> ?d" and all: "\<forall>q\<in>set ps. v \<le> scan_dist E P st X Y q"
      and ix: "(c' = int i \<and> v = ?d)
                \<or> (\<exists>j<length ps. c' = int (Suc i + j) \<and> scan_dist E P st X Y (ps ! j) = v \<and> v < ?d)"
      by blast
    have va: "v < a" using le True by simp
    have "\<exists>j<length (p # ps). c' = int (i + j) \<and> scan_dist E P st X Y ((p # ps) ! j) = v"
    proof -
      from ix show ?thesis
      proof
        assume "c' = int i \<and> v = ?d"
        then have "0 < length (p # ps) \<and> c' = int (i + 0) \<and> scan_dist E P st X Y ((p # ps) ! 0) = v"
          by simp
        then show ?thesis by blast
      next
        assume "\<exists>j<length ps. c' = int (Suc i + j) \<and> scan_dist E P st X Y (ps ! j) = v \<and> v < ?d"
        then obtain j where "j < length ps" "c' = int (Suc i + j)" "scan_dist E P st X Y (ps ! j) = v"
          by blast
        then have "Suc j < length (p # ps) \<and> c' = int (i + Suc j)
                   \<and> scan_dist E P st X Y ((p # ps) ! Suc j) = v"
          by simp
        then show ?thesis by blast
      qed
    qed
    with m' le all va show ?thesis by auto
  next
    case False
    with Cons.prems have "select_scan E P st X Y ps (Suc i) (Finite a, c) = (m', c')"
      by (simp only: select_scan_Cons below.simps if_False)
    from Cons.IH [OF this] obtain v where
      m': "m' = Finite v" and le: "v \<le> a" and all: "\<forall>q\<in>set ps. v \<le> scan_dist E P st X Y q"
      and ix: "(c' = c \<and> v = a)
                \<or> (\<exists>j<length ps. c' = int (Suc i + j) \<and> scan_dist E P st X Y (ps ! j) = v \<and> v < a)"
      by blast
    have vd: "v \<le> ?d" using le False by simp
    have "(c' = c \<and> v = a)
          \<or> (\<exists>j<length (p # ps). c' = int (i + j) \<and> scan_dist E P st X Y ((p # ps) ! j) = v \<and> v < a)"
    proof -
      from ix show ?thesis
      proof
        assume "c' = c \<and> v = a"
        then show ?thesis by blast
      next
        assume "\<exists>j<length ps. c' = int (Suc i + j) \<and> scan_dist E P st X Y (ps ! j) = v \<and> v < a"
        then obtain j where "j < length ps" "c' = int (Suc i + j)"
          "scan_dist E P st X Y (ps ! j) = v" "v < a"
          by blast
        then have "Suc j < length (p # ps) \<and> c' = int (i + Suc j)
                   \<and> scan_dist E P st X Y ((p # ps) ! Suc j) = v \<and> v < a"
          by simp
        then show ?thesis by blast
      qed
    qed
    with m' le all vd show ?thesis by auto
  qed
qed

text \<open>From \<open>Infinity\<close> and a photo list that is not empty the scan ends on a least
  distance and on an index that has it.\<close>

lemma select_scan_Infinity:
  assumes "ps \<noteq> []"
  shows "\<exists>v j. select_scan E P st X Y ps 0 (Infinity, - 1) = (Finite v, int j)
           \<and> j < length ps \<and> scan_dist E P st X Y (ps ! j) = v
           \<and> (\<forall>p\<in>set ps. v \<le> scan_dist E P st X Y p)"
proof -
  from assms obtain p qs where ps: "ps = p # qs" by (cases ps) auto
  let ?d = "scan_dist E P st X Y p"
  obtain m' c' where r: "select_scan E P st X Y qs (Suc 0) (Finite ?d, int 0) = (m', c')"
    by (cases "select_scan E P st X Y qs (Suc 0) (Finite ?d, int 0)") auto
  have whole: "select_scan E P st X Y ps 0 (Infinity, - 1) = (m', c')"
    unfolding ps using r by (simp only: select_scan_Cons below.simps if_True)
  from select_scan_Finite [OF r] obtain v where
    m': "m' = Finite v" and le: "v \<le> ?d" and all: "\<forall>q\<in>set qs. v \<le> scan_dist E P st X Y q"
    and ix: "(c' = int 0 \<and> v = ?d)
              \<or> (\<exists>j<length qs. c' = int (Suc 0 + j) \<and> scan_dist E P st X Y (qs ! j) = v \<and> v < ?d)"
    by blast
  have "\<exists>j<length ps. c' = int j \<and> scan_dist E P st X Y (ps ! j) = v"
  proof -
    from ix show ?thesis
    proof
      assume "c' = int 0 \<and> v = ?d"
      then have "0 < length ps \<and> c' = int 0 \<and> scan_dist E P st X Y (ps ! 0) = v"
        unfolding ps by simp
      then show ?thesis by blast
    next
      assume "\<exists>j<length qs. c' = int (Suc 0 + j) \<and> scan_dist E P st X Y (qs ! j) = v \<and> v < ?d"
      then obtain j where "j < length qs" "c' = int (Suc 0 + j)" "scan_dist E P st X Y (qs ! j) = v"
        by blast
      then have "Suc j < length ps \<and> c' = int (Suc j) \<and> scan_dist E P st X Y (ps ! Suc j) = v"
        unfolding ps by simp
      then show ?thesis by blast
    qed
  qed
  moreover have "\<forall>q\<in>set ps. v \<le> scan_dist E P st X Y q"
    unfolding ps using le all by simp
  ultimately show ?thesis using whole m' by blast
qed

lemma scan_dist_pointer_dist:
  "scan_dist E P st (rnd E (rnd E (vx (position hand) * 2) - 1))
     (rnd E (- rnd E (vy (position hand) * 2) + 1)) p
   = pointer_dist E P st hand p"
  by (simp add: scan_dist_def pointer_dist_def Let_def mult.commute)

lemma selectionFrame_running:
  assumes "st \<noteq> ZOOM" "isPresent hand" "ps \<noteq> []"
  shows "\<exists>j<length ps. (\<forall>p\<in>set ps. pointer_dist E P st hand (ps ! j) \<le> pointer_dist E P st hand p)
           \<and> selectionFrame E P st hand ps
               = (if pointer_dist E P st hand (ps ! j) < rnd E (4 / 10) then Some (int j)
                  else None)"
proof -
  let ?X = "rnd E (rnd E (vx (position hand) * 2) - 1)"
  let ?Y = "rnd E (- rnd E (vy (position hand) * 2) + 1)"
  from select_scan_Infinity [OF assms(3), of E P st ?X ?Y] obtain v j where
    sc: "select_scan E P st ?X ?Y ps 0 (Infinity, - 1) = (Finite v, int j)"
    and j: "j < length ps" and v: "scan_dist E P st ?X ?Y (ps ! j) = v"
    and mn: "\<forall>p\<in>set ps. v \<le> scan_dist E P st ?X ?Y p"
    by blast
  have "selectionFrame E P st hand ps = (if v < rnd E (4 / 10) then Some (int j) else None)"
    unfolding selectionFrame_def Let_def sc using assms by simp
  with j v mn show ?thesis
    unfolding scan_dist_pointer_dist by blast
qed

lemma sqrt_less_two_fifths: "sqrt x < 2 / 5 \<longleftrightarrow> x < 4 / 25"
proof -
  have e: "sqrt (4 / 25) = (2 / 5 :: real)"
    by (rule real_sqrt_unique) (simp_all add: power2_eq_square)
  have "sqrt x < sqrt (4 / 25) \<longleftrightarrow> x < 4 / 25" by (rule real_sqrt_less_iff)
  then show ?thesis unfolding e .
qed

section \<open>Claims on the pointer selector\<close>

lemma rnd64_two_fifths: "rnd64 (2 / 5) = 3602879701896397 / 9007199254740992"
  using rnd64_four_tenths by simp

text \<open>
  C1. In \<open>ZOOM\<close> (focused) the selection pass computes and reports nothing, for
  every camera, pointer and photo set; the callback fires only in \<open>SCATTER\<close> or
  \<open>TREE\<close>, and only with a hand present and a photo set that is not empty.
\<close>

theorem selection_suspended_in_zoom:
  "selectionFrame E P ZOOM hand ps = None
   \<and> (selectionFrame E P st hand ps = Some k \<longrightarrow>
        (st = SCATTER \<or> st = TREE) \<and> isPresent hand \<and> ps \<noteq> [])"
proof (rule conjI)
  show "selectionFrame E P ZOOM hand ps = None" by (simp add: selectionFrame_def)
next
  show "selectionFrame E P st hand ps = Some k \<longrightarrow>
        (st = SCATTER \<or> st = TREE) \<and> isPresent hand \<and> ps \<noteq> []"
    by (cases st) (auto simp: selectionFrame_def split: if_splits)
qed

theorem selection_suspended_in_zoom_witness:
  "selectionFrame ieee_env flat_project SCATTER
     \<lparr>gesture = OPEN_PALM, position = \<lparr>vx = 0.5, vy = 0.5\<rparr>, isPresent = True\<rparr>
     [photo_at 1000 (9, 9, 9) (0, 0, 0)] = Some 0
   \<and> selectionFrame ieee_env flat_project ZOOM
     \<lparr>gesture = OPEN_PALM, position = \<lparr>vx = 0.5, vy = 0.5\<rparr>, isPresent = True\<rparr>
     [photo_at 1000 (9, 9, 9) (0, 0, 0)] = None
   \<and> isPresent \<lparr>gesture = OPEN_PALM, position = \<lparr>vx = 0.5, vy = 0.5\<rparr>, isPresent = True\<rparr>"
proof -
  let ?h = "\<lparr>gesture = OPEN_PALM, position = \<lparr>vx = 0.5, vy = 0.5\<rparr>, isPresent = True\<rparr>"
  let ?ps = "[photo_at 1000 (9, 9, 9) (0, 0, 0)]"
  have fire: "selectionFrame ieee_env flat_project SCATTER ?h ?ps = Some 0"
    by (simp add: selectionFrame_def flat_project_def photo_at_def x3_def y3_def ieee_env_def
        sqrt64_def rnd64_0 rnd64_1 rnd64_two_fifths)
  from selection_suspended_in_zoom [of ieee_env flat_project ?h ?ps SCATTER 0] fire
  show ?thesis by simp
qed

theorem selection_only_scattered_counterexample:
  "selectionFrame ieee_env flat_project TREE
     \<lparr>gesture = OPEN_PALM, position = \<lparr>vx = 0.5, vy = 0.5\<rparr>, isPresent = True\<rparr>
     [photo_at 1000 (0, 0, 0) (9, 9, 9)] = Some 0"
  by (simp add: selectionFrame_def flat_project_def photo_at_def x3_def y3_def ieee_env_def
        sqrt64_def rnd64_0 rnd64_1 rnd64_two_fifths)

text \<open>The roundings of the frame with the pointer at
  \<open>(65 / 128, 5407069381290799 / 2 ^ 54)\<close> and a photo that projects to \<open>(0, 0)\<close>:
  the sum of the squares rounds to the double for \<open>0.16\<close>, whose square root is the
  double for \<open>0.4\<close>.\<close>

lemma r6_x_twice: "rnd64 (65 / 64) = 65 / 64"
proof -
  have "rnd64 (65 / 64) = of_int (4573968371548160) / 2 ^ 52"
    by (rule rnd64_round) simp_all
  then show ?thesis by simp
qed

lemma r6_ndcX: "rnd64 (1 / 64) = 1 / 64"
proof -
  have "rnd64 (1 / 64) = of_int (4503599627370496) / 2 ^ 58"
    by (rule rnd64_round) simp_all
  then show ?thesis by simp
qed

lemma r6_y_twice: "rnd64 (5407069381290799 / 9007199254740992) = 5407069381290799 / 9007199254740992"
proof -
  have "rnd64 (5407069381290799 / 9007199254740992) = of_int (5407069381290799) / 2 ^ 53"
    by (rule rnd64_round) simp_all
  then show ?thesis by simp
qed

lemma r6_ndcY: "rnd64 (3600129873450193 / 9007199254740992) = 3600129873450193 / 9007199254740992"
proof -
  have "rnd64 (3600129873450193 / 9007199254740992) = of_int (7200259746900386) / 2 ^ 54"
    by (rule rnd64_round) simp_all
  then show ?thesis by simp
qed

lemma r6_dx: "rnd64 (- (1 / 64)) = - (1 / 64)"
proof -
  have "rnd64 (- (1 / 64)) = of_int (- 4503599627370496) / 2 ^ 58"
    by (rule rnd64_round) simp_all
  then show ?thesis by simp
qed

lemma r6_dy: "rnd64 (- (3600129873450193 / 9007199254740992)) = - (3600129873450193 / 9007199254740992)"
proof -
  have "rnd64 (- (3600129873450193 / 9007199254740992)) = of_int (- 7200259746900386) / 2 ^ 54"
    by (rule rnd64_round) simp_all
  then show ?thesis by simp
qed

lemma r6_dx_square: "rnd64 (1 / 4096) = 1 / 4096"
proof -
  have "rnd64 (1 / 4096) = of_int (4503599627370496) / 2 ^ 64"
    by (rule rnd64_round) simp_all
  then show ?thesis by simp
qed

lemma r6_dy_square: "rnd64 (12960935105708502665033651737249 / 81129638414606681695789005144064) = 5755811430012027 / 36028797018963968"
proof -
  have "rnd64 (12960935105708502665033651737249 / 81129638414606681695789005144064) = of_int (5755811430012027) / 2 ^ 55"
    by (rule rnd64_round) simp_all
  then show ?thesis by simp
qed

lemma r6_sum: "rnd64 (5764607523034235 / 36028797018963968) = 5764607523034235 / 36028797018963968"
proof -
  have "rnd64 (5764607523034235 / 36028797018963968) = of_int (5764607523034235) / 2 ^ 55"
    by (rule rnd64_round) simp_all
  then show ?thesis by simp
qed

lemma r6_sqrt: "sqrt64 (5764607523034235 / 36028797018963968) = 3602879701896397 / 9007199254740992"
proof -
  have "sqrt64 (5764607523034235 / 36028797018963968) = of_int 7205759403792794 / 2 ^ 54"
    by (rule sqrt64_round) (simp_all add: power2_eq_square)
  then show ?thesis by simp
qed

lemma rnd64_minus_1: "rnd64 (- 1) = - 1"
  by (rule rnd64_exact [where n = 52 and m = "- (2 ^ 52)"]) simp_all

lemma rnd64_4: "rnd64 4 = 4"
  by (rule rnd64_exact [where n = 50 and m = "2 ^ 52"]) simp_all

text \<open>
  C6. On a frame where selection runs (mode not \<open>ZOOM\<close>, hand present, photo set
  not empty) the distance of a photo is the Euclidean distance between the projection
  of its anchor for the current mode and the pointer at \<open>(2 * px - 1, 1 - 2 * py)\<close>,
  as the arithmetic of the runtime computes it, every operation rounded. If the
  callback is called with \<open>k\<close>, then \<open>k\<close> is the index of a photo whose computed
  distance is least and strictly below the double for \<open>0.4\<close>; it is called whenever
  some photo's computed distance is strictly below that threshold, and not called
  when every photo is at the threshold or beyond. This holds for every environment,
  for exact arithmetic as for the doubles.
\<close>

theorem selection_nearest_within_threshold:
  "st \<noteq> ZOOM \<and> isPresent hand \<and> ps \<noteq> [] \<longrightarrow>
     (\<forall>k. selectionFrame E P st hand ps = Some k \<longrightarrow>
          0 \<le> k \<and> nat k < length ps
          \<and> pointer_dist E P st hand (ps ! nat k) < rnd E (4 / 10)
          \<and> (\<forall>p\<in>set ps. pointer_dist E P st hand (ps ! nat k) \<le> pointer_dist E P st hand p))
     \<and> ((\<exists>p\<in>set ps. pointer_dist E P st hand p < rnd E (4 / 10)) \<longrightarrow>
          (\<exists>k. selectionFrame E P st hand ps = Some k))
     \<and> ((\<forall>p\<in>set ps. rnd E (4 / 10) \<le> pointer_dist E P st hand p) \<longrightarrow>
          selectionFrame E P st hand ps = None)"
proof (rule impI)
  assume a: "st \<noteq> ZOOM \<and> isPresent hand \<and> ps \<noteq> []"
  then have a1: "st \<noteq> ZOOM" and a2: "isPresent hand" and a3: "ps \<noteq> []" by auto
  from selectionFrame_running [OF a1 a2 a3, of E P] obtain j where
    j: "j < length ps"
    and mn: "\<forall>p\<in>set ps. pointer_dist E P st hand (ps ! j) \<le> pointer_dist E P st hand p"
    and sel: "selectionFrame E P st hand ps
               = (if pointer_dist E P st hand (ps ! j) < rnd E (4 / 10) then Some (int j)
                  else None)"
    by blast
  have 1: "\<forall>k. selectionFrame E P st hand ps = Some k \<longrightarrow>
          0 \<le> k \<and> nat k < length ps
          \<and> pointer_dist E P st hand (ps ! nat k) < rnd E (4 / 10)
          \<and> (\<forall>p\<in>set ps. pointer_dist E P st hand (ps ! nat k) \<le> pointer_dist E P st hand p)"
    using j mn sel by (auto split: if_splits)
  have 2: "(\<exists>p\<in>set ps. pointer_dist E P st hand p < rnd E (4 / 10)) \<longrightarrow>
          (\<exists>k. selectionFrame E P st hand ps = Some k)"
  proof
    assume "\<exists>p\<in>set ps. pointer_dist E P st hand p < rnd E (4 / 10)"
    then obtain p where "p \<in> set ps" "pointer_dist E P st hand p < rnd E (4 / 10)" by blast
    with mn have "pointer_dist E P st hand (ps ! j) < rnd E (4 / 10)" by force
    with sel show "\<exists>k. selectionFrame E P st hand ps = Some k" by simp
  qed
  have 3: "(\<forall>p\<in>set ps. rnd E (4 / 10) \<le> pointer_dist E P st hand p) \<longrightarrow>
          selectionFrame E P st hand ps = None"
  proof
    assume "\<forall>p\<in>set ps. rnd E (4 / 10) \<le> pointer_dist E P st hand p"
    moreover have "ps ! j \<in> set ps" using j by simp
    ultimately have "\<not> pointer_dist E P st hand (ps ! j) < rnd E (4 / 10)" by force
    with sel show "selectionFrame E P st hand ps = None" by simp
  qed
  from 1 2 3 show "(\<forall>k. selectionFrame E P st hand ps = Some k \<longrightarrow>
          0 \<le> k \<and> nat k < length ps
          \<and> pointer_dist E P st hand (ps ! nat k) < rnd E (4 / 10)
          \<and> (\<forall>p\<in>set ps. pointer_dist E P st hand (ps ! nat k) \<le> pointer_dist E P st hand p))
     \<and> ((\<exists>p\<in>set ps. pointer_dist E P st hand p < rnd E (4 / 10)) \<longrightarrow>
          (\<exists>k. selectionFrame E P st hand ps = Some k))
     \<and> ((\<forall>p\<in>set ps. rnd E (4 / 10) \<le> pointer_dist E P st hand p) \<longrightarrow>
          selectionFrame E P st hand ps = None)"
    by blast
qed

text \<open>The witness, in the arithmetic of the doubles: three photos whose anchors
  project to \<open>(0, 0)\<close>, \<open>(2, 0)\<close> and \<open>(-1, 0)\<close>; the pointer at the centre selects
  the first, and without the first none is selected.\<close>

theorem selection_nearest_within_threshold_witness:
  "selectionFrame ieee_env flat_project SCATTER
     \<lparr>gesture = OPEN_PALM, position = \<lparr>vx = 1 / 2, vy = 1 / 2\<rparr>, isPresent = True\<rparr>
     [photo_at 1000 (9, 9, 9) (0, 0, 0), photo_at 1001 (9, 9, 9) (2, 0, 0),
      photo_at 1002 (9, 9, 9) (- 1, 0, 0)] = Some 0
   \<and> selectionFrame ieee_env flat_project SCATTER
     \<lparr>gesture = OPEN_PALM, position = \<lparr>vx = 1 / 2, vy = 1 / 2\<rparr>, isPresent = True\<rparr>
     [photo_at 1001 (9, 9, 9) (2, 0, 0), photo_at 1002 (9, 9, 9) (- 1, 0, 0)] = None"
proof -
  let ?h = "\<lparr>gesture = OPEN_PALM, position = \<lparr>vx = 1 / 2, vy = 1 / 2\<rparr>, isPresent = True\<rparr>"
  let ?p0 = "photo_at 1000 (9, 9, 9) (0, 0, 0)"
  let ?p1 = "photo_at 1001 (9, 9, 9) (2, 0, 0)"
  let ?p2 = "photo_at 1002 (9, 9, 9) (- 1, 0, 0)"
  let ?ps = "[?p0, ?p1, ?p2]"
  let ?qs = "[?p1, ?p2]"
  have t: "rnd ieee_env (4 / 10) = 3602879701896397 / 9007199254740992"
    by (simp add: ieee_env_def rnd64_two_fifths)
  have v0: "pointer_dist ieee_env flat_project SCATTER ?h ?p0 = 0"
    by (simp add: pointer_dist_def flat_project_def photo_at_def x3_def y3_def ieee_env_def
        sqrt64_def rnd64_0 rnd64_1)
  have v1: "pointer_dist ieee_env flat_project SCATTER ?h ?p1 = 2"
    by (simp add: pointer_dist_def flat_project_def photo_at_def x3_def y3_def ieee_env_def
        sqrt64_def rnd64_0 rnd64_1 rnd64_2 rnd64_4)
  have v2: "pointer_dist ieee_env flat_project SCATTER ?h ?p2 = 1"
    by (simp add: pointer_dist_def flat_project_def photo_at_def x3_def y3_def ieee_env_def
        sqrt64_def rnd64_0 rnd64_1 rnd64_minus_1)
  have pre: "SCATTER \<noteq> ZOOM \<and> isPresent ?h \<and> ?ps \<noteq> []" by simp
  have d0: "pointer_dist ieee_env flat_project SCATTER ?h ?p0 < rnd ieee_env (4 / 10)"
    unfolding v0 t by simp
  note near = selection_nearest_within_threshold [of SCATTER ?h ?ps ieee_env flat_project]
  from near pre d0 obtain k where k: "selectionFrame ieee_env flat_project SCATTER ?h ?ps = Some k"
    by auto
  with near pre have bounds: "0 \<le> k" "nat k < length ?ps"
    and least: "\<forall>p\<in>set ?ps. pointer_dist ieee_env flat_project SCATTER ?h (?ps ! nat k)
                    \<le> pointer_dist ieee_env flat_project SCATTER ?h p"
    by blast+
  from bounds have "nat k = 0 \<or> nat k = 1 \<or> nat k = 2" by auto
  then have "nat k = 0"
    using least v0 v1 v2 by auto
  with bounds have "k = 0" by simp
  with k have 1: "selectionFrame ieee_env flat_project SCATTER ?h ?ps = Some 0" by simp
  have pre2: "SCATTER \<noteq> ZOOM \<and> isPresent ?h \<and> ?qs \<noteq> []" by simp
  have far: "\<forall>p\<in>set ?qs. rnd ieee_env (4 / 10) \<le> pointer_dist ieee_env flat_project SCATTER ?h p"
    unfolding t using v1 v2 by simp
  from selection_nearest_within_threshold [of SCATTER ?h ?qs ieee_env flat_project] pre2 far
  have 2: "selectionFrame ieee_env flat_project SCATTER ?h ?qs = None" by blast
  from 1 2 show ?thesis by blast
qed

text \<open>With the pointer at \<open>(65 / 128, 5407069381290799 / 2 ^ 54)\<close> the exact distance
  of a photo that projects to \<open>(0, 0)\<close> is strictly below \<open>0.4\<close>, but the distance
  the frame computes in the doubles is the double for \<open>0.4\<close> itself, and nothing is
  reported.\<close>

theorem selection_exact_threshold_counterexample:
  "pointer_dist exact_env flat_project SCATTER
     \<lparr>gesture = OPEN_PALM,
      position = \<lparr>vx = 65 / 128, vy = 5407069381290799 / 18014398509481984\<rparr>,
      isPresent = True\<rparr>
     (photo_at 1000 (9, 9, 9) (0, 0, 0)) < 4 / 10
   \<and> selectionFrame ieee_env flat_project SCATTER
     \<lparr>gesture = OPEN_PALM,
      position = \<lparr>vx = 65 / 128, vy = 5407069381290799 / 18014398509481984\<rparr>,
      isPresent = True\<rparr>
     [photo_at 1000 (9, 9, 9) (0, 0, 0)] = None"
proof -
  let ?h = "\<lparr>gesture = OPEN_PALM,
      position = \<lparr>vx = 65 / 128, vy = 5407069381290799 / 18014398509481984\<rparr>,
      isPresent = True\<rparr>"
  let ?p = "photo_at 1000 (9, 9, 9) (0, 0, 0)"
  have e: "pointer_dist exact_env flat_project SCATTER ?h ?p
           = sqrt (12980742146337068749432037724833 / 81129638414606681695789005144064)"
    by (simp add: pointer_dist_def flat_project_def photo_at_def x3_def y3_def exact_env_def)
  have 1: "pointer_dist exact_env flat_project SCATTER ?h ?p < 4 / 10"
    unfolding e using sqrt_less_two_fifths
      [of "12980742146337068749432037724833 / 81129638414606681695789005144064"]
    by simp
  have 2: "selectionFrame ieee_env flat_project SCATTER ?h [?p] = None"
    by (simp add: selectionFrame_def flat_project_def photo_at_def x3_def y3_def ieee_env_def
        rnd64_two_fifths r6_x_twice r6_ndcX r6_y_twice r6_ndcY r6_dx r6_dy r6_dx_square
        r6_dy_square r6_sum r6_sqrt)
  from 1 2 show ?thesis by (rule conjI)
qed

section \<open>Interpolation steps of the animator\<close>


lemma ornamentStep_dummy:
  "snd (ornamentStep E st time delta d (cx, cy, cz, cs) dummy)
   = \<lparr>t_position =
        (lerp E cx (x3 (ornamentTarget E st time d)) (rnd E ((if st = TREE then 3 else 2) * delta)),
         lerp E cy (y3 (ornamentTarget E st time d)) (rnd E ((if st = TREE then 3 else 2) * delta)),
         lerp E cz (z3 (ornamentTarget E st time d)) (rnd E ((if st = TREE then 3 else 2) * delta))),
      t_rotation = (rnd E (x3 (rotationSpeed d) * time), rnd E (y3 (rotationSpeed d) * time),
                    z3 (t_rotation dummy)),
      t_scale = lerp E cs (ornamentTargetScale E st d) (rnd E (delta * 3))\<rparr>"
  by (simp add: ornamentStep_def ornamentLerpSpeed_def Let_def)

lemma photoFrame_position:
  "t_position (photoFrame E lookAt st sel time delta cam d mesh)
   = vlerp3 E (t_position mesh) (fst (photoTarget E st sel time d)) (rnd E (delta * 3))"
  by (simp add: photoFrame_def Let_def split: prod.splits)



section \<open>The animator in exact arithmetic\<close>

text \<open>Without rounding an interpolated position moves by the factor times the
  distance to the target.\<close>

lemma exact_env_fields:
  "rnd exact_env x = x" "fround exact_env x = x"
  "lerp exact_env a b t = a + (b - a) * t" "vlerp exact_env a b t = a + (b - a) * t"
  by (simp_all add: exact_env_def)

lemma dist3_step:
  "dist3 (x3 a + (x3 b - x3 a) * t, y3 a + (y3 b - y3 a) * t, z3 a + (z3 b - z3 a) * t) a
   = \<bar>t\<bar> * dist3 b a"
proof -
  have "(x3 a + (x3 b - x3 a) * t - x3 a)\<^sup>2 + (y3 a + (y3 b - y3 a) * t - y3 a)\<^sup>2
          + (z3 a + (z3 b - z3 a) * t - z3 a)\<^sup>2
        = t\<^sup>2 * ((x3 b - x3 a)\<^sup>2 + (y3 b - y3 a)\<^sup>2 + (z3 b - z3 a)\<^sup>2)"
    by (simp add: power2_eq_square algebra_simps)
  then have "dist3 (x3 a + (x3 b - x3 a) * t, y3 a + (y3 b - y3 a) * t, z3 a + (z3 b - z3 a) * t) a
             = sqrt (t\<^sup>2 * ((x3 b - x3 a)\<^sup>2 + (y3 b - y3 a)\<^sup>2 + (z3 b - z3 a)\<^sup>2))"
    by (simp add: dist3_def x3_def y3_def z3_def)
  then show ?thesis
    by (simp add: real_sqrt_mult dist3_def)
qed

lemma exact_ornament_step:
  "dist3 (t_position (snd (ornamentStep exact_env st time delta d (cx, cy, cz, cs) dummy)))
         (cx, cy, cz)
   = (if st = TREE then 3 else 2) * \<bar>delta\<bar> * dist3 (ornamentTarget exact_env st time d) (cx, cy, cz)"
proof -
  have "t_position (snd (ornamentStep exact_env st time delta d (cx, cy, cz, cs) dummy))
        = (x3 (cx, cy, cz) + (x3 (ornamentTarget exact_env st time d) - x3 (cx, cy, cz))
                               * ((if st = TREE then 3 else 2) * delta),
           y3 (cx, cy, cz) + (y3 (ornamentTarget exact_env st time d) - y3 (cx, cy, cz))
                               * ((if st = TREE then 3 else 2) * delta),
           z3 (cx, cy, cz) + (z3 (ornamentTarget exact_env st time d) - z3 (cx, cy, cz))
                               * ((if st = TREE then 3 else 2) * delta))"
    by (simp add: ornamentStep_dummy exact_env_fields x3_def y3_def z3_def)
  then have "dist3 (t_position (snd (ornamentStep exact_env st time delta d (cx, cy, cz, cs) dummy)))
               (cx, cy, cz)
             = \<bar>(if st = TREE then 3 else 2) * delta\<bar>
               * dist3 (ornamentTarget exact_env st time d) (cx, cy, cz)"
    by (simp only: dist3_step)
  then show ?thesis by (simp add: abs_mult)
qed

lemma exact_photo_step:
  "dist3 (t_position (photoFrame exact_env lookAt st sel time delta cam d mesh)) (t_position mesh)
   = 3 * \<bar>delta\<bar> * dist3 (fst (photoTarget exact_env st sel time d)) (t_position mesh)"
proof -
  have "t_position (photoFrame exact_env lookAt st sel time delta cam d mesh)
        = (x3 (t_position mesh)
             + (x3 (fst (photoTarget exact_env st sel time d)) - x3 (t_position mesh)) * (delta * 3),
           y3 (t_position mesh)
             + (y3 (fst (photoTarget exact_env st sel time d)) - y3 (t_position mesh)) * (delta * 3),
           z3 (t_position mesh)
             + (z3 (fst (photoTarget exact_env st sel time d)) - z3 (t_position mesh)) * (delta * 3))"
    by (simp add: photoFrame_position vlerp3_def exact_env_fields)
  then have "dist3 (t_position (photoFrame exact_env lookAt st sel time delta cam d mesh))
               (t_position mesh)
             = \<bar>delta * 3\<bar> * dist3 (fst (photoTarget exact_env st sel time d)) (t_position mesh)"
    by (simp only: dist3_step)
  then show ?thesis by (simp add: abs_mult)
qed

section \<open>Evaluating the store of the buffer\<close>








section \<open>Claim on the animator\<close>














end
